theory Spec2Isabelle
  imports Main "HOL-Library.Word"
begin

section \<open>Types of the hipBLAS client interface\<close>

text \<open>
  The test routines \<^verbatim>\<open>testing_her2k\<close> and \<^verbatim>\<open>testing_sbmv_batched\<close> work on C++
  \<^verbatim>\<open>int\<close> values: 32 bits, compared as signed numbers (\<open><s\<close>), with products and
  sums that wrap around.
\<close>

type_synonym cint = "32 word"

text \<open>
  The status enumeration of the GPU library. The routines name four of its values; every
  other value the library may hand back is \<open>HIPBLAS_STATUS_OTHER\<close> with its code.
\<close>

datatype hipblasStatus_t =
    HIPBLAS_STATUS_SUCCESS
  | HIPBLAS_STATUS_ALLOC_FAILED
  | HIPBLAS_STATUS_INVALID_VALUE
  | HIPBLAS_STATUS_MAPPING_ERROR
  | HIPBLAS_STATUS_OTHER nat

datatype hipError_t = hipSuccess | hipErrorCode nat

datatype hipMemcpyKind = hipMemcpyHostToDevice | hipMemcpyDeviceToHost

datatype hipblasOperation_t = HIPBLAS_OP_N | HIPBLAS_OP_T | HIPBLAS_OP_C

datatype hipblasFillMode_t = HIPBLAS_FILL_MODE_UPPER | HIPBLAS_FILL_MODE_LOWER

text \<open>
  The fields of \<^verbatim>\<open>Arguments\<close> that the two routines read. \<open>uplo\<close> and \<open>transA\<close> hold
  the values of \<^verbatim>\<open>char2hipblas_fill(argus.uplo_option)\<close> and
  \<^verbatim>\<open>char2hipblas_operation(argus.transA_option)\<close>: the two converters are taken as
  already applied. The scalars \<^verbatim>\<open>alpha\<close> and \<^verbatim>\<open>beta\<close> are only handed on to the GPU
  routine and to the CPU reference routine, whose results the environment below supplies.
\<close>

record Arguments =
  M :: cint
  N :: cint
  K :: cint
  lda :: cint
  ldb :: cint
  ldc :: cint
  incx :: cint
  incy :: cint
  batch_count :: cint
  uplo :: hipblasFillMode_t
  transA :: hipblasOperation_t
  unit_check :: bool
  timing :: bool

section \<open>Buffers, events and the state of one invocation\<close>

text \<open>The variables of the two routines that name a buffer or an array of buffers.\<close>

datatype name =
    hA | hB | hC | hC2 | dA | dB | dC
  | hA_array | hx_array | hy_array | hres_array
  | bA_array | bx_array | by_array
  | dA_array | dx_array | dy_array

text \<open>\<open>Buf v\<close> is the buffer \<^verbatim>\<open>v\<close>; \<open>Item v b\<close> is \<^verbatim>\<open>v[b]\<close>.\<close>

datatype buf = Buf name | Item name nat

text \<open>
  What an invocation does to the world outside its own variables, in the order it does it:
  host and device allocations (with the \<^verbatim>\<open>int\<close> element count passed), creation and
  destruction of the handle, copies (with the status the copy returned), the call of the
  GPU routine (with the status it returned), the call of the CPU reference routine (with
  the buffer it overwrites) and the comparison.
\<close>

datatype event =
    HostAlloc buf cint
  | DeviceAlloc buf cint
  | HipblasCreate
  | HipblasDestroy
  | HipMemcpy buf buf cint hipMemcpyKind hipError_t
  | GpuCall hipblasStatus_t
  | CblasCall buf
  | UnitCheck

text \<open>
  Everything the routines do not decide themselves: the values \<^verbatim>\<open>rand()\<close> yields
  (\<open>rand_stream seed k\<close> is the value of the \<open>k\<close>-th draw after \<^verbatim>\<open>srand(seed)\<close>),
  whether a device allocation gave a non-null pointer, the status of each copy (by
  destination), what a device buffer holds when it is read back, the status of the GPU
  routine, and the values the CPU reference routine leaves in its output buffer.
\<close>

record 'a env =
  rand_stream :: "nat \<Rightarrow> nat \<Rightarrow> 'a"
  device_ok :: "buf \<Rightarrow> bool"
  memcpy_status :: "buf \<Rightarrow> hipError_t"
  device_data :: "buf \<Rightarrow> nat \<Rightarrow> 'a"
  gpu_status :: hipblasStatus_t
  cblas_result :: "'a list \<Rightarrow> 'a list \<Rightarrow> 'a list \<Rightarrow> nat \<Rightarrow> 'a"

text \<open>
  The state of an invocation: the contents of each live host vector, the random generator
  (its seed and the number of draws since seeding) and the events so far.
\<close>

record 'a state =
  host :: "buf \<Rightarrow> 'a list option"
  rng :: "nat \<times> nat"
  trace :: "event list"

text \<open>
  An invocation either returns a status or does not return: \<open>BadAlloc\<close> is the exception
  of a \<^verbatim>\<open>std::vector\<close> constructed with a negative \<^verbatim>\<open>int\<close> (a size beyond
  \<^verbatim>\<open>max_size()\<close> once converted to \<^verbatim>\<open>size_t\<close>), \<open>OutOfBounds\<close> is an access
  outside a vector, which C++ leaves undefined.
\<close>

datatype fault = BadAlloc | OutOfBounds

datatype outcome = Returned hipblasStatus_t | Faulted fault

type_synonym 'a result = "(outcome \<times> 'a state) + 'a state"

text \<open>A C generator that was never seeded behaves as after \<^verbatim>\<open>srand(1)\<close>.\<close>

definition start :: "'a state" where
  "start = \<lparr>host = (\<lambda>_. None), rng = (1, 0), trace = []\<rparr>"

definition emit :: "event \<Rightarrow> 'a state \<Rightarrow> 'a state" where
  "emit e s = s\<lparr>trace := trace s @ [e]\<rparr>"

definition contents :: "'a state \<Rightarrow> buf \<Rightarrow> 'a list" where
  "contents s b = (case host s b of None \<Rightarrow> [] | Some xs \<Rightarrow> xs)"

section \<open>Statements in sequence, loops\<close>

text \<open>
  A statement maps a state to \<open>Inr\<close> the next state, or to \<open>Inl\<close> the outcome and final
  state when it leaves the routine. A block runs its statements in order and stops at the
  first that leaves.
\<close>

fun run_steps :: "('s \<Rightarrow> 'r + 's) list \<Rightarrow> 's \<Rightarrow> 'r + 's" where
  "run_steps [] s = Inr s"
| "run_steps (f # fs) s = (case f s of Inl r \<Rightarrow> Inl r | Inr s' \<Rightarrow> run_steps fs s')"

text \<open>\<^verbatim>\<open>for(int b = 0; b < n; b++) body(b)\<close>\<close>

definition for_loop :: "cint \<Rightarrow> (nat \<Rightarrow> 's \<Rightarrow> 'r + 's) \<Rightarrow> 's \<Rightarrow> 'r + 's" where
  "for_loop n body = run_steps (map body [0..<nat (sint n)])"

text \<open>\<^verbatim>\<open>if(c) { ... }\<close>\<close>

definition when_steps :: "bool \<Rightarrow> ('s \<Rightarrow> 'r + 's) list \<Rightarrow> 's \<Rightarrow> 'r + 's" where
  "when_steps c fs s = (if c then run_steps fs s else Inr s)"

section \<open>The operations the routines call\<close>

text \<open>
  Modelled from the spec: \<^verbatim>\<open>host_vector\<close>, \<^verbatim>\<open>device_vector\<close> and
  \<^verbatim>\<open>device_batch_vector\<close> are declared in headers that are not among the files
  verified here. The spec's matrix buffer is a "contiguous element array" that "lives in
  host memory or device memory", owned by the test function.

  \<^verbatim>\<open>host_vector<T> v(n)\<close> is a \<^verbatim>\<open>std::vector\<close> of \<open>n\<close> elements, all zero; a
  negative \<open>n\<close> is a size beyond \<^verbatim>\<open>max_size()\<close> and the constructor throws.
\<close>

definition host_vector :: "buf \<Rightarrow> cint \<Rightarrow> ('a::zero) state \<Rightarrow> 'a result" where
  "host_vector v n s =
     (if n <s 0 then Inl (Faulted BadAlloc, s)
      else Inr (emit (HostAlloc v n) (s\<lparr>host := (host s)(v \<mapsto> replicate (nat (sint n)) 0)\<rparr>)))"

text \<open>\<^verbatim>\<open>host_vector<T> v[n]\<close>: an array of \<open>n\<close> empty vectors.\<close>

definition host_vector_array :: "name \<Rightarrow> cint \<Rightarrow> 'a state \<Rightarrow> 'a result" where
  "host_vector_array v n s =
     Inr (s\<lparr>host := (\<lambda>x. case x of
                          Item w b \<Rightarrow> if w = v \<and> b < nat (sint n) then Some [] else host s x
                        | Buf w \<Rightarrow> host s x)\<rparr>)"

text \<open>\<^verbatim>\<open>hres_array[b] = hy_array[b]\<close>\<close>

definition assign :: "buf \<Rightarrow> buf \<Rightarrow> 'a state \<Rightarrow> 'a result" where
  "assign dst src s = Inr (s\<lparr>host := (host s)(dst := host s src)\<rparr>)"

text \<open>
  Modelled from the spec (see \<open>host_vector\<close>): \<^verbatim>\<open>device_vector<T> v(n)\<close> and
  \<^verbatim>\<open>device_batch_vector<T> v(batch_count, n)\<close>, the latter one device buffer of \<open>n\<close>
  elements per batch item. The constructors do not throw; whether they got memory shows
  in the pointer only, which the environment decides (\<open>device_ok\<close>).
\<close>

definition device_vector :: "buf \<Rightarrow> cint \<Rightarrow> 'a state \<Rightarrow> 'a result" where
  "device_vector v n s = Inr (emit (DeviceAlloc v n) s)"

definition device_batch_vector :: "name \<Rightarrow> cint \<Rightarrow> cint \<Rightarrow> 'a state \<Rightarrow> 'a result" where
  "device_batch_vector v bc n =
     run_steps (map (\<lambda>b. device_vector (Item v b) n) [0..<nat (sint bc)])"

definition hipblasCreate :: "'a state \<Rightarrow> 'a state" where
  "hipblasCreate s = emit HipblasCreate s"

definition hipblasDestroy :: "'a state \<Rightarrow> 'a state" where
  "hipblasDestroy s = emit HipblasDestroy s"

text \<open>\<^verbatim>\<open>srand(seed)\<close> restarts the generator.\<close>

definition srand :: "nat \<Rightarrow> 'a state \<Rightarrow> 'a state" where
  "srand seed s = s\<lparr>rng := (seed, 0)\<rparr>"

text \<open>
  Modelled from the spec: \<^verbatim>\<open>hipblas_init<T>(A, M, N, lda)\<close> and the
  \<^verbatim>\<open>random_generator<T>()\<close> it calls are defined in a header that is not among the
  files verified here. The spec has the routines "randomize inputs deterministically" into
  a matrix buffer, a "contiguous element array interpreted with a leading dimension
  (stride) and logical rows/columns", the leading dimension being the "stride between
  consecutive columns": element \<open>(i, j)\<close> of the \<open>M\<close> by \<open>N\<close> matrix is
  \<^verbatim>\<open>A[i + j * lda]\<close>, and each one gets the next value of \<^verbatim>\<open>rand()\<close>, row by row.
  The index is an \<^verbatim>\<open>int\<close>; outside the vector the access is undefined.
\<close>

definition store_random :: "'a env \<Rightarrow> buf \<Rightarrow> cint \<Rightarrow> 'a state \<Rightarrow> 'a result" where
  "store_random env v idx s =
     (let xs = contents s v in
      if 0 \<le>s idx \<and> nat (sint idx) < length xs
      then Inr (s\<lparr>host := (host s)(v \<mapsto> xs[nat (sint idx) := rand_stream env (fst (rng s)) (snd (rng s))]),
                 rng := (fst (rng s), Suc (snd (rng s)))\<rparr>)
      else Inl (Faulted OutOfBounds, s))"

definition init_indices :: "cint \<Rightarrow> cint \<Rightarrow> cint \<Rightarrow> cint list" where
  "init_indices m n ld =
     concat (map (\<lambda>i. map (\<lambda>j. word_of_nat i + word_of_nat j * ld) [0..<nat (sint n)])
                 [0..<nat (sint m)])"

definition hipblas_init :: "'a env \<Rightarrow> buf \<Rightarrow> cint \<Rightarrow> cint \<Rightarrow> cint \<Rightarrow> 'a state \<Rightarrow> 'a result" where
  "hipblas_init env v m n ld = run_steps (map (store_random env v) (init_indices m n ld))"

text \<open>
  \<^verbatim>\<open>hipMemcpy(dst, src, sizeof(T) * n, kind)\<close> returns its status. A copy to the host
  that succeeds overwrites the first \<open>n\<close> elements of the destination. (Both routines
  copy back exactly as many elements as the destination was allocated with.)
\<close>

definition hipMemcpy ::
  "'a env \<Rightarrow> buf \<Rightarrow> buf \<Rightarrow> cint \<Rightarrow> hipMemcpyKind \<Rightarrow> 'a state \<Rightarrow> hipError_t \<times> 'a state" where
  "hipMemcpy env dst src n kind s =
     (let err = memcpy_status env dst;
          s' = emit (HipMemcpy dst src n kind err) s
      in (err,
          if kind = hipMemcpyDeviceToHost \<and> err = hipSuccess
          then s'\<lparr>host := (host s')(dst \<mapsto> map (device_data env src) [0..<nat (sint n)]
                                             @ drop (nat (sint n)) (contents s dst))\<rparr>
          else s'))"

text \<open>A call whose returned status the routine drops.\<close>

definition ignore_status :: "('s \<Rightarrow> 'e \<times> 's) \<Rightarrow> 's \<Rightarrow> 'r + 's" where
  "ignore_status f s = Inr (snd (f s))"

definition proceed :: "('s \<Rightarrow> 's) \<Rightarrow> 's \<Rightarrow> 'r + 's" where
  "proceed f s = Inr (f s)"

text \<open>The GPU routine, \<^verbatim>\<open>hipblasHer2k\<close> or \<^verbatim>\<open>hipblasSbmvBatched\<close>: a black box that
  returns a status.\<close>

definition gpu_routine :: "'a env \<Rightarrow> 'a state \<Rightarrow> hipblasStatus_t \<times> 'a state" where
  "gpu_routine env s = (gpu_status env, emit (GpuCall (gpu_status env)) s)"

text \<open>
  The CPU reference routine, \<^verbatim>\<open>cblas_her2k\<close> or \<^verbatim>\<open>cblas_sbmv\<close>: a black box that
  reads two input buffers and overwrites the output buffer in place.
\<close>

definition cblas :: "'a env \<Rightarrow> buf \<Rightarrow> buf \<Rightarrow> buf \<Rightarrow> 'a state \<Rightarrow> 'a result" where
  "cblas env a b c s =
     Inr (emit (CblasCall c)
            (s\<lparr>host := (host s)(c \<mapsto> map (cblas_result env (contents s a) (contents s b) (contents s c))
                                         [0..<length (contents s c)])\<rparr>))"

text \<open>\<^verbatim>\<open>gpu_time_used = get_time_us()\<close>: the clock is read into a local that is not
  read again.\<close>

definition get_time_us :: "'a state \<Rightarrow> 'a state" where
  "get_time_us s = s"

definition unit_check_general :: "'a state \<Rightarrow> 'a result" where
  "unit_check_general s = Inr (emit UnitCheck s)"

section \<open>\<^verbatim>\<open>testing_her2k\<close>\<close>

definition her2k_invalid :: "Arguments \<Rightarrow> bool" where
  "her2k_invalid argus \<longleftrightarrow>
     N argus <s 0 \<or> K argus <s 0 \<or> ldc argus <s N argus
     \<or> (transA argus = HIPBLAS_OP_N \<and> (lda argus <s N argus \<or> ldb argus <s N argus))
     \<or> (transA argus \<noteq> HIPBLAS_OP_N \<and> (lda argus <s K argus \<or> ldb argus <s K argus))"

definition K1 :: "Arguments \<Rightarrow> cint" where
  "K1 argus = (if transA argus = HIPBLAS_OP_N then K argus else N argus)"

definition her2k_A_size :: "Arguments \<Rightarrow> cint" where
  "her2k_A_size argus = lda argus * K1 argus"

definition B_size :: "Arguments \<Rightarrow> cint" where
  "B_size argus = lda argus * K1 argus"

definition C_size :: "Arguments \<Rightarrow> cint" where
  "C_size argus = ldc argus * N argus"

text \<open>
  The call of the GPU routine and the test of its status: lines 94 to 101 of
  \<^verbatim>\<open>testing_her2k\<close>, lines 128 to 146 of \<^verbatim>\<open>testing_sbmv_batched\<close>.
\<close>

definition gpu_call :: "'a env \<Rightarrow> 'a state \<Rightarrow> 'a result" where
  "gpu_call env s =
     (let (status, s1) = gpu_routine env s in
      if status \<noteq> HIPBLAS_STATUS_SUCCESS then Inl (Returned status, hipblasDestroy s1)
      else Inr s1)"

definition her2k_body :: "('a::zero) env \<Rightarrow> Arguments \<Rightarrow> ('a state \<Rightarrow> 'a result) list" where
  "her2k_body env argus =
     [host_vector (Buf hA) (her2k_A_size argus),
      host_vector (Buf hB) (B_size argus),
      host_vector (Buf hC) (C_size argus),
      host_vector (Buf hC2) (C_size argus),
      device_vector (Buf dA) (her2k_A_size argus),
      device_vector (Buf dB) (B_size argus),
      device_vector (Buf dC) (C_size argus),
      proceed hipblasCreate,
      proceed (srand 1),
      hipblas_init env (Buf hA) (N argus) (K1 argus) (lda argus),
      hipblas_init env (Buf hB) (N argus) (K1 argus) (ldb argus),
      hipblas_init env (Buf hC) (N argus) (N argus) (ldc argus),
      ignore_status (hipMemcpy env (Buf dA) (Buf hA) (her2k_A_size argus) hipMemcpyHostToDevice),
      ignore_status (hipMemcpy env (Buf dB) (Buf hB) (B_size argus) hipMemcpyHostToDevice),
      ignore_status (hipMemcpy env (Buf dC) (Buf hC) (C_size argus) hipMemcpyHostToDevice),
      when_steps (timing argus) [proceed get_time_us],
      for_loop 1 (\<lambda>iter. gpu_call env),
      ignore_status (hipMemcpy env (Buf hC2) (Buf dC) (C_size argus) hipMemcpyDeviceToHost),
      when_steps (unit_check argus)
        [cblas env (Buf hA) (Buf hB) (Buf hC),
         when_steps (unit_check argus) [unit_check_general]]]"

definition testing_her2k :: "('a::zero) env \<Rightarrow> Arguments \<Rightarrow> outcome \<times> 'a state" where
  "testing_her2k env argus =
     (if her2k_invalid argus then (Returned HIPBLAS_STATUS_INVALID_VALUE, start)
      else case run_steps (her2k_body env argus) start of
             Inl r \<Rightarrow> r
           | Inr s \<Rightarrow> (Returned HIPBLAS_STATUS_SUCCESS, hipblasDestroy s))"

section \<open>\<^verbatim>\<open>testing_sbmv_batched\<close>\<close>

definition sbmv_A_size :: "Arguments \<Rightarrow> cint" where
  "sbmv_A_size argus = lda argus * M argus"

definition X_size :: "Arguments \<Rightarrow> cint" where
  "X_size argus = M argus * incx argus"

definition Y_size :: "Arguments \<Rightarrow> cint" where
  "Y_size argus = M argus * incy argus"

definition sbmv_invalid :: "Arguments \<Rightarrow> bool" where
  "sbmv_invalid argus \<longleftrightarrow>
     M argus <s 0 \<or> K argus <s 0 \<or> lda argus <s K argus + 1 \<or> incx argus = 0 \<or> incy argus = 0
     \<or> batch_count argus <s 0"

text \<open>Lines 78 to 84: the test of the device pointers.\<close>

definition alloc_check :: "'a env \<Rightarrow> Arguments \<Rightarrow> 'a state \<Rightarrow> 'a result" where
  "alloc_check env argus s =
     (let last = nat (sint (batch_count argus - 1)) in
      if \<not> device_ok env (Buf dA_array) \<or> \<not> device_ok env (Buf dx_array)
         \<or> \<not> device_ok env (Buf dy_array)
         \<or> (\<not> device_ok env (Item bA_array last) \<and> sbmv_A_size argus \<noteq> 0)
         \<or> (\<not> device_ok env (Item bx_array last) \<and> X_size argus \<noteq> 0)
         \<or> (\<not> device_ok env (Item by_array last) \<and> Y_size argus \<noteq> 0)
      then Inl (Returned HIPBLAS_STATUS_ALLOC_FAILED, hipblasDestroy s)
      else Inr s)"

text \<open>Lines 103 to 111: the three copies of batch item \<open>b\<close> and the test of their status.\<close>

definition copy_batch :: "'a env \<Rightarrow> Arguments \<Rightarrow> nat \<Rightarrow> 'a state \<Rightarrow> 'a result" where
  "copy_batch env argus b s =
     (let (err_A, s1) = hipMemcpy env (Item bA_array b) (Item hA_array b) (sbmv_A_size argus)
                          hipMemcpyHostToDevice s;
          (err_x, s2) = hipMemcpy env (Item bx_array b) (Item hx_array b) (X_size argus)
                          hipMemcpyHostToDevice s1;
          (err_y, s3) = hipMemcpy env (Item by_array b) (Item hy_array b) (Y_size argus)
                          hipMemcpyHostToDevice s2
      in if err_A \<noteq> hipSuccess \<or> err_x \<noteq> hipSuccess \<or> err_y \<noteq> hipSuccess
         then Inl (Returned HIPBLAS_STATUS_MAPPING_ERROR, hipblasDestroy s3)
         else Inr s3)"

text \<open>Lines 91 to 111: one iteration of the initialisation loop.\<close>

definition init_batch :: "('a::zero) env \<Rightarrow> Arguments \<Rightarrow> nat \<Rightarrow> 'a state \<Rightarrow> 'a result" where
  "init_batch env argus b =
     run_steps
       [host_vector (Item hA_array b) (sbmv_A_size argus),
        host_vector (Item hx_array b) (X_size argus),
        host_vector (Item hy_array b) (Y_size argus),
        assign (Item hres_array b) (Item hy_array b),
        proceed (srand 1),
        hipblas_init env (Item hA_array b) (M argus) (M argus) (lda argus),
        hipblas_init env (Item hx_array b) 1 (M argus) (incx argus),
        hipblas_init env (Item hy_array b) 1 (M argus) (incy argus),
        copy_batch env argus b]"

text \<open>Lines 114 to 121: the copies of the three pointer arrays.\<close>

definition copy_pointers :: "'a env \<Rightarrow> Arguments \<Rightarrow> 'a state \<Rightarrow> 'a result" where
  "copy_pointers env argus s =
     (let (err_A, s1) = hipMemcpy env (Buf dA_array) (Buf bA_array) (batch_count argus)
                          hipMemcpyHostToDevice s;
          (err_x, s2) = hipMemcpy env (Buf dx_array) (Buf bx_array) (batch_count argus)
                          hipMemcpyHostToDevice s1;
          (err_y, s3) = hipMemcpy env (Buf dy_array) (Buf by_array) (batch_count argus)
                          hipMemcpyHostToDevice s2
      in if err_A \<noteq> hipSuccess \<or> err_x \<noteq> hipSuccess \<or> err_y \<noteq> hipSuccess
         then Inl (Returned HIPBLAS_STATUS_MAPPING_ERROR, hipblasDestroy s3)
         else Inr s3)"

definition sbmv_body :: "('a::zero) env \<Rightarrow> Arguments \<Rightarrow> ('a state \<Rightarrow> 'a result) list" where
  "sbmv_body env argus =
     [proceed hipblasCreate,
      host_vector_array hA_array (batch_count argus),
      host_vector_array hx_array (batch_count argus),
      host_vector_array hy_array (batch_count argus),
      host_vector_array hres_array (batch_count argus),
      device_batch_vector bA_array (batch_count argus) (sbmv_A_size argus),
      device_batch_vector bx_array (batch_count argus) (X_size argus),
      device_batch_vector by_array (batch_count argus) (Y_size argus),
      device_vector (Buf dA_array) (batch_count argus),
      device_vector (Buf dx_array) (batch_count argus),
      device_vector (Buf dy_array) (batch_count argus),
      alloc_check env argus,
      proceed (srand 1),
      for_loop (batch_count argus) (init_batch env argus),
      copy_pointers env argus,
      for_loop 1 (\<lambda>iter. gpu_call env),
      for_loop (batch_count argus)
        (\<lambda>b. ignore_status (hipMemcpy env (Item hres_array b) (Item by_array b) (Y_size argus)
                               hipMemcpyDeviceToHost)),
      when_steps (unit_check argus)
        [for_loop (batch_count argus)
           (\<lambda>b. cblas env (Item hA_array b) (Item hx_array b) (Item hy_array b)),
         when_steps (unit_check argus) [unit_check_general]]]"

definition testing_sbmv_batched :: "('a::zero) env \<Rightarrow> Arguments \<Rightarrow> outcome \<times> 'a state" where
  "testing_sbmv_batched env argus =
     (if sbmv_invalid argus then (Returned HIPBLAS_STATUS_INVALID_VALUE, start)
      else if batch_count argus = 0 then (Returned HIPBLAS_STATUS_SUCCESS, start)
      else case run_steps (sbmv_body env argus) start of
             Inl r \<Rightarrow> r
           | Inr s \<Rightarrow> (Returned HIPBLAS_STATUS_SUCCESS, hipblasDestroy s))"

section \<open>Properties of traces\<close>

text \<open>
  The events that can precede the call of the GPU routine: allocations, the creation of the
  handle and copies to the device. A destroy, a GPU call, a copy back to the host, a CPU
  reference call and a comparison are not among them.
\<close>

fun before_gpu :: "event \<Rightarrow> bool" where
  "before_gpu (HostAlloc v n) = True"
| "before_gpu (DeviceAlloc v n) = True"
| "before_gpu HipblasCreate = True"
| "before_gpu (HipMemcpy dst src n kind err) = (kind = hipMemcpyHostToDevice)"
| "before_gpu e = False"

fun failed_h2d :: "event \<Rightarrow> bool" where
  "failed_h2d (HipMemcpy dst src n kind err) = (kind = hipMemcpyHostToDevice \<and> err \<noteq> hipSuccess)"
| "failed_h2d e = False"

fun gpu_failure :: "event \<Rightarrow> bool" where
  "gpu_failure (GpuCall st) = (st \<noteq> HIPBLAS_STATUS_SUCCESS)"
| "gpu_failure e = False"

text \<open>
  \<open>aborted_after e r\<close>: the run \<open>r\<close> ended with the event \<open>e\<close> followed by the destruction
  of the handle, and before \<open>e\<close> nothing happened but allocations, the creation of the
  handle and copies to the device.
\<close>

definition aborted_after :: "event \<Rightarrow> outcome \<times> 'a state \<Rightarrow> bool" where
  "aborted_after e r \<longleftrightarrow>
     2 \<le> length (trace (snd r))
     \<and> last (trace (snd r)) = HipblasDestroy
     \<and> last (butlast (trace (snd r))) = e
     \<and> list_all before_gpu (butlast (butlast (trace (snd r))))"

definition destroyed_once :: "outcome \<times> 'a state \<Rightarrow> bool" where
  "destroyed_once r \<longleftrightarrow>
     count_list (trace (snd r)) HipblasDestroy = 1 \<and> last (trace (snd r)) = HipblasDestroy"

definition gpu_abort :: "outcome \<times> 'a state \<Rightarrow> bool" where
  "gpu_abort r \<longleftrightarrow>
     (\<forall>st. GpuCall st \<in> set (trace (snd r)) \<and> st \<noteq> HIPBLAS_STATUS_SUCCESS
           \<longrightarrow> fst r = Returned st \<and> aborted_after (GpuCall st) r)"

definition copy_abort :: "outcome \<times> 'a state \<Rightarrow> bool" where
  "copy_abort r \<longleftrightarrow>
     ((\<exists>e \<in> set (trace (snd r)). failed_h2d e)
      \<longrightarrow> fst r = Returned HIPBLAS_STATUS_MAPPING_ERROR
          \<and> trace (snd r) \<noteq> [] \<and> last (trace (snd r)) = HipblasDestroy
          \<and> list_all before_gpu (butlast (trace (snd r))))"

definition her2k_statuses :: "'a env \<Rightarrow> outcome \<times> 'a state \<Rightarrow> bool" where
  "her2k_statuses env r \<longleftrightarrow>
     (\<forall>st. fst r = Returned st \<longrightarrow> st = HIPBLAS_STATUS_SUCCESS \<or> st = gpu_status env)"

text \<open>
  The events of \<^verbatim>\<open>testing_her2k\<close> when \<open>N = 0\<close>: seven allocations, the handle, three
  copies to the device, the GPU call; when that succeeds, the copy back and, under
  \<open>unit_check\<close>, the CPU call and the comparison; the destruction of the handle.
\<close>

definition her2k_empty_trace :: "'a env \<Rightarrow> Arguments \<Rightarrow> event list" where
  "her2k_empty_trace env argus =
     [HostAlloc (Buf hA) (her2k_A_size argus), HostAlloc (Buf hB) (B_size argus),
      HostAlloc (Buf hC) 0, HostAlloc (Buf hC2) 0,
      DeviceAlloc (Buf dA) (her2k_A_size argus), DeviceAlloc (Buf dB) (B_size argus),
      DeviceAlloc (Buf dC) 0,
      HipblasCreate,
      HipMemcpy (Buf dA) (Buf hA) (her2k_A_size argus) hipMemcpyHostToDevice
        (memcpy_status env (Buf dA)),
      HipMemcpy (Buf dB) (Buf hB) (B_size argus) hipMemcpyHostToDevice
        (memcpy_status env (Buf dB)),
      HipMemcpy (Buf dC) (Buf hC) 0 hipMemcpyHostToDevice (memcpy_status env (Buf dC)),
      GpuCall (gpu_status env)]
     @ (if gpu_status env \<noteq> HIPBLAS_STATUS_SUCCESS then []
        else HipMemcpy (Buf hC2) (Buf dC) 0 hipMemcpyDeviceToHost (memcpy_status env (Buf hC2))
             # (if unit_check argus then [CblasCall (Buf hC), UnitCheck] else []))
     @ [HipblasDestroy]"

section \<open>Reasoning about blocks of statements\<close>

text \<open>
  \<open>step_spec P f Q R\<close>: from a state where \<open>P\<close> holds, the statement \<open>f\<close> either goes on
  in a state where \<open>Q\<close> holds or leaves the routine with a result for which \<open>R\<close> holds.
\<close>

definition step_spec ::
  "('s \<Rightarrow> bool) \<Rightarrow> ('s \<Rightarrow> 'r + 's) \<Rightarrow> ('s \<Rightarrow> bool) \<Rightarrow> ('r \<Rightarrow> bool) \<Rightarrow> bool" where
  "step_spec P f Q R \<longleftrightarrow> (\<forall>s. P s \<longrightarrow> (case f s of Inl r \<Rightarrow> R r | Inr s' \<Rightarrow> Q s'))"

text \<open>
  \<open>quiet A f\<close>: the statement \<open>f\<close> never returns a status (it goes on, or it faults), and
  every event it adds satisfies \<open>A\<close>.
\<close>

definition quiet :: "(event \<Rightarrow> bool) \<Rightarrow> ('a state \<Rightarrow> 'a result) \<Rightarrow> bool" where
  "quiet A f \<longleftrightarrow>
     (\<forall>s. case f s of
            Inr s' \<Rightarrow> (\<exists>es. trace s' = trace s @ es \<and> list_all A es)
          | Inl (out, s') \<Rightarrow> (\<exists>ft. out = Faulted ft)
                              \<and> (\<exists>es. trace s' = trace s @ es \<and> list_all A es))"

text \<open>The statements before and after the GPU call, and before the check of the copies.\<close>

definition her2k_pre :: "('a::zero) env \<Rightarrow> Arguments \<Rightarrow> ('a state \<Rightarrow> 'a result) list" where
  "her2k_pre env argus = take 16 (her2k_body env argus)"

definition her2k_post :: "('a::zero) env \<Rightarrow> Arguments \<Rightarrow> ('a state \<Rightarrow> 'a result) list" where
  "her2k_post env argus = drop 17 (her2k_body env argus)"

definition sbmv_pre :: "('a::zero) env \<Rightarrow> Arguments \<Rightarrow> ('a state \<Rightarrow> 'a result) list" where
  "sbmv_pre env argus = take 11 (sbmv_body env argus)"

definition sbmv_post :: "('a::zero) env \<Rightarrow> Arguments \<Rightarrow> ('a state \<Rightarrow> 'a result) list" where
  "sbmv_post env argus = drop 16 (sbmv_body env argus)"

definition init_pre :: "('a::zero) env \<Rightarrow> Arguments \<Rightarrow> nat \<Rightarrow> ('a state \<Rightarrow> 'a result) list" where
  "init_pre env argus b =
     [host_vector (Item hA_array b) (sbmv_A_size argus),
      host_vector (Item hx_array b) (X_size argus),
      host_vector (Item hy_array b) (Y_size argus),
      assign (Item hres_array b) (Item hy_array b),
      proceed (srand 1),
      hipblas_init env (Item hA_array b) (M argus) (M argus) (lda argus),
      hipblas_init env (Item hx_array b) 1 (M argus) (incx argus),
      hipblas_init env (Item hy_array b) 1 (M argus) (incy argus)]"

definition finish :: "(outcome \<times> 'a state) + 'a state \<Rightarrow> outcome \<times> 'a state" where
  "finish r = (case r of Inl x \<Rightarrow> x | Inr s \<Rightarrow> (Returned HIPBLAS_STATUS_SUCCESS, hipblasDestroy s))"

text \<open>
  What \<^verbatim>\<open>hipblas_init\<close> leaves in a vector \<open>xs\<close> when every index is inside it: the
  draws of the generator \<open>g\<close>, stored at the indices in order.
\<close>

fun fill :: "'a env \<Rightarrow> cint list \<Rightarrow> 'a list \<times> (nat \<times> nat) \<Rightarrow> 'a list \<times> (nat \<times> nat)" where
  "fill env [] (xs, g) = (xs, g)"
| "fill env (idx # idxs) (xs, g) =
     fill env idxs (xs[nat (sint idx) := rand_stream env (fst g) (snd g)], (fst g, Suc (snd g)))"

definition filled_A :: "('a::zero) env \<Rightarrow> Arguments \<Rightarrow> 'a list \<times> (nat \<times> nat)" where
  "filled_A env argus =
     fill env (init_indices (M argus) (M argus) (lda argus))
       (replicate (nat (sint (sbmv_A_size argus))) 0, (1, 0))"

definition filled_x :: "('a::zero) env \<Rightarrow> Arguments \<Rightarrow> 'a list \<times> (nat \<times> nat)" where
  "filled_x env argus =
     fill env (init_indices 1 (M argus) (incx argus))
       (replicate (nat (sint (X_size argus))) 0, snd (filled_A env argus))"

definition filled_y :: "('a::zero) env \<Rightarrow> Arguments \<Rightarrow> 'a list \<times> (nat \<times> nat)" where
  "filled_y env argus =
     fill env (init_indices 1 (M argus) (incy argus))
       (replicate (nat (sint (Y_size argus))) 0, snd (filled_x env argus))"

definition batch_ready :: "('a::zero) env \<Rightarrow> Arguments \<Rightarrow> 'a state \<Rightarrow> nat \<Rightarrow> bool" where
  "batch_ready env argus s b \<longleftrightarrow>
     host s (Item hA_array b) = Some (fst (filled_A env argus))
     \<and> host s (Item hx_array b) = Some (fst (filled_x env argus))
     \<and> host s (Item hy_array b) = Some (fst (filled_y env argus))"

section \<open>Example inputs\<close>

text \<open>
  An environment in which every outside call succeeds, with element type \<open>int\<close>, and a
  set of arguments that both routines accept; then variants of both.
\<close>

definition env0 :: "int env" where
  "env0 = \<lparr>rand_stream = (\<lambda>seed k. int (seed + k + 1)), device_ok = (\<lambda>_. True),
           memcpy_status = (\<lambda>_. hipSuccess), device_data = (\<lambda>_ _. 7),
           gpu_status = HIPBLAS_STATUS_SUCCESS, cblas_result = (\<lambda>a b c i. 9)\<rparr>"

definition args0 :: Arguments where
  "args0 = \<lparr>M = 2, N = 2, K = 1, lda = 2, ldb = 2, ldc = 2, incx = 1, incy = 1,
            batch_count = 2, uplo = HIPBLAS_FILL_MODE_UPPER, transA = HIPBLAS_OP_N,
            unit_check = True, timing = False\<rparr>"

text \<open>The GPU routine fails.\<close>

definition env_gpu_fails :: "int env" where
  "env_gpu_fails = env0\<lparr>gpu_status := HIPBLAS_STATUS_OTHER 5\<rparr>"

text \<open>The copy of \<^verbatim>\<open>hA\<close> to \<^verbatim>\<open>dA\<close> fails (her2k).\<close>

definition env_copy_dA_fails :: "int env" where
  "env_copy_dA_fails =
     env0\<lparr>memcpy_status := (\<lambda>d. if d = Buf dA then hipErrorCode 1 else hipSuccess)\<rparr>"

text \<open>The copy of \<^verbatim>\<open>hx_array[1]\<close> to \<^verbatim>\<open>bx_array[1]\<close> fails (sbmv_batched).\<close>

definition env_copy_x1_fails :: "int env" where
  "env_copy_x1_fails =
     env0\<lparr>memcpy_status := (\<lambda>d. if d = Item bx_array 1 then hipErrorCode 1 else hipSuccess)\<rparr>"

text \<open>No device allocation yields a pointer.\<close>

definition env_no_device_memory :: "int env" where
  "env_no_device_memory = env0\<lparr>device_ok := (\<lambda>_. False)\<rparr>"

text \<open>her2k with \<open>N = 2\<close>, \<open>K = 2\<close>, \<open>lda = 2\<close>, \<open>ldb = 3\<close>, \<open>ldc = 2\<close>, no transposition.\<close>

definition args_wide_ldb :: Arguments where
  "args_wide_ldb = args0\<lparr>K := 2, ldb := 3\<rparr>"

text \<open>sbmv_batched with \<open>M = 2\<close>, \<open>K = 1\<close>, \<open>lda = 2\<close>, \<open>incx = -1\<close>, \<open>incy = 1\<close>, two batches.\<close>

definition args_negative_incx :: Arguments where
  "args_negative_incx = args0\<lparr>incx := - 1\<rparr>"

text \<open>her2k with \<open>N = 0\<close>, \<open>K = 1\<close>, \<open>lda = ldb = ldc = 2\<close>, no transposition.\<close>

definition args_zero_n :: Arguments where
  "args_zero_n = args0\<lparr>N := 0\<rparr>"

definition args_negative_k :: Arguments where
  "args_negative_k = args0\<lparr>K := - 1\<rparr>"

section \<open>Rules for blocks of statements\<close>

lemma step_spec_nil: "(\<And>s. P s \<Longrightarrow> Q s) \<Longrightarrow> step_spec P (run_steps []) Q R"
  by (simp add: step_spec_def)

lemma step_spec_done: "step_spec P (run_steps []) P R"
  by (simp add: step_spec_def)

lemma step_spec_cons:
  "step_spec P f P' R \<Longrightarrow> step_spec P' (run_steps fs) Q R \<Longrightarrow> step_spec P (run_steps (f # fs)) Q R"
  by (auto simp: step_spec_def split: sum.splits)

lemma run_steps_append:
  "run_steps (fs @ gs) s = (case run_steps fs s of Inl r \<Rightarrow> Inl r | Inr s' \<Rightarrow> run_steps gs s')"
  by (induction fs arbitrary: s) (auto split: sum.splits)

lemma step_spec_append:
  "step_spec P (run_steps fs) P' R \<Longrightarrow> step_spec P' (run_steps gs) Q R
   \<Longrightarrow> step_spec P (run_steps (fs @ gs)) Q R"
  by (auto simp: step_spec_def run_steps_append split: sum.splits)

lemma step_spec_inv:
  "(\<And>f. f \<in> set fs \<Longrightarrow> step_spec I f I R) \<Longrightarrow> step_spec I (run_steps fs) I R"
proof (induction fs)
  case Nil
  show ?case by (rule step_spec_nil)
next
  case (Cons f fs)
  show ?case
    by (rule step_spec_cons [where P' = I]) (simp_all add: Cons)
qed

lemma step_spec_for_loop:
  "(\<And>b. step_spec I (body b) I R) \<Longrightarrow> step_spec I (for_loop n body) I R"
  unfolding for_loop_def by (rule step_spec_inv) auto

lemma step_spec_when:
  "step_spec I (run_steps fs) I R \<Longrightarrow> step_spec I (when_steps c fs) I R"
  by (simp add: step_spec_def when_steps_def)

lemma step_spec_weaken:
  "step_spec P f Q R \<Longrightarrow> (\<And>s. P' s \<Longrightarrow> P s) \<Longrightarrow> (\<And>s. Q s \<Longrightarrow> Q' s) \<Longrightarrow> (\<And>r. R r \<Longrightarrow> R' r)
   \<Longrightarrow> step_spec P' f Q' R'"
  by (fastforce simp: step_spec_def split: sum.splits)

lemma quietI:
  "(\<And>s s'. f s = Inr s' \<Longrightarrow> \<exists>es. trace s' = trace s @ es \<and> list_all A es)
   \<Longrightarrow> (\<And>s out s'. f s = Inl (out, s')
          \<Longrightarrow> (\<exists>ft. out = Faulted ft) \<and> (\<exists>es. trace s' = trace s @ es \<and> list_all A es))
   \<Longrightarrow> quiet A f"
  by (auto simp: quiet_def split: sum.splits)

lemma quiet_Inr: "quiet A f \<Longrightarrow> f s = Inr s' \<Longrightarrow> \<exists>es. trace s' = trace s @ es \<and> list_all A es"
  by (auto simp: quiet_def split: sum.splits dest: spec [where x = s])

lemma quiet_Inl:
  "quiet A f \<Longrightarrow> f s = Inl (out, s')
   \<Longrightarrow> (\<exists>ft. out = Faulted ft) \<and> (\<exists>es. trace s' = trace s @ es \<and> list_all A es)"
  by (auto simp: quiet_def split: sum.splits dest: spec [where x = s])

lemma quiet_run_steps:
  "(\<And>f. f \<in> set fs \<Longrightarrow> quiet A f) \<Longrightarrow> quiet A (run_steps fs)"
proof (induction fs)
  case Nil
  show ?case by (simp add: quiet_def)
next
  case (Cons f fs)
  have qf: "quiet A f" and qfs: "quiet A (run_steps fs)"
    using Cons by simp_all
  show ?case
  proof (rule quietI)
    fix s s' assume "run_steps (f # fs) s = Inr s'"
    then obtain s1 where 1: "f s = Inr s1" and 2: "run_steps fs s1 = Inr s'"
      by (auto split: sum.splits)
    from quiet_Inr [OF qf 1] quiet_Inr [OF qfs 2]
    show "\<exists>es. trace s' = trace s @ es \<and> list_all A es"
      by (metis append.assoc list_all_append)
  next
    fix s out s' assume r: "run_steps (f # fs) s = Inl (out, s')"
    show "(\<exists>ft. out = Faulted ft) \<and> (\<exists>es. trace s' = trace s @ es \<and> list_all A es)"
    proof (cases "f s")
      case (Inl r')
      with r have "f s = Inl (out, s')" by simp
      from quiet_Inl [OF qf this] show ?thesis .
    next
      case (Inr s1)
      with r have 2: "run_steps fs s1 = Inl (out, s')" by simp
      from quiet_Inr [OF qf Inr] quiet_Inl [OF qfs 2]
      show ?thesis by (metis append.assoc list_all_append)
    qed
  qed
qed

lemma quiet_for_loop: "(\<And>b. quiet A (body b)) \<Longrightarrow> quiet A (for_loop n body)"
  unfolding for_loop_def by (rule quiet_run_steps) auto

lemma quiet_when_steps: "(\<And>f. f \<in> set fs \<Longrightarrow> quiet A f) \<Longrightarrow> quiet A (when_steps c fs)"
  using quiet_run_steps [of fs A] by (auto simp: quiet_def when_steps_def)

lemma quiet_host_vector: "A (HostAlloc v n) \<Longrightarrow> quiet A (host_vector v n)"
  by (simp add: quiet_def host_vector_def emit_def)

lemma quiet_host_vector_array: "quiet A (host_vector_array v n)"
  by (simp add: quiet_def host_vector_array_def)

lemma quiet_assign: "quiet A (assign dst src)"
  by (simp add: quiet_def assign_def)

lemma quiet_device_vector: "A (DeviceAlloc v n) \<Longrightarrow> quiet A (device_vector v n)"
  by (simp add: quiet_def device_vector_def emit_def)

lemma quiet_device_batch_vector:
  "(\<And>b. A (DeviceAlloc (Item v b) n)) \<Longrightarrow> quiet A (device_batch_vector v bc n)"
  unfolding device_batch_vector_def
  by (rule quiet_run_steps) (auto intro: quiet_device_vector)

lemma quiet_hipblasCreate: "A HipblasCreate \<Longrightarrow> quiet A (proceed hipblasCreate)"
  by (simp add: quiet_def proceed_def hipblasCreate_def emit_def)

lemma quiet_srand: "quiet A (proceed (srand seed))"
  by (simp add: quiet_def proceed_def srand_def)

lemma quiet_get_time_us: "quiet A (proceed get_time_us)"
  by (simp add: quiet_def proceed_def get_time_us_def)

lemma quiet_store_random: "quiet A (store_random env v idx)"
  by (simp add: quiet_def store_random_def Let_def)

lemma quiet_hipblas_init: "quiet A (hipblas_init env v m n ld)"
  unfolding hipblas_init_def
  by (rule quiet_run_steps) (auto intro: quiet_store_random)

lemma quiet_hipMemcpy:
  "A (HipMemcpy dst src n kind (memcpy_status env dst))
   \<Longrightarrow> quiet A (ignore_status (hipMemcpy env dst src n kind))"
  by (auto simp: quiet_def ignore_status_def hipMemcpy_def emit_def Let_def)

lemma quiet_cblas: "A (CblasCall c) \<Longrightarrow> quiet A (cblas env a b c)"
  by (simp add: quiet_def cblas_def emit_def)

lemma quiet_unit_check_general: "A UnitCheck \<Longrightarrow> quiet A unit_check_general"
  by (simp add: quiet_def unit_check_general_def emit_def)

lemmas quiet_intros =
  quiet_host_vector quiet_host_vector_array quiet_assign quiet_device_vector
  quiet_device_batch_vector quiet_hipblasCreate quiet_srand quiet_get_time_us quiet_hipblas_init
  quiet_hipMemcpy quiet_cblas quiet_unit_check_general

lemma quiet_step_spec:
  assumes "quiet A f"
    and "\<And>t es. I t \<Longrightarrow> list_all A es \<Longrightarrow> I (t @ es)"
    and "\<And>ft s. I (trace s) \<Longrightarrow> R (Faulted ft, s)"
  shows "step_spec (\<lambda>s. I (trace s)) f (\<lambda>s. I (trace s)) R"
  unfolding step_spec_def
proof (intro allI impI)
  fix s :: "'a state" assume "I (trace s)"
  show "case f s of Inl r \<Rightarrow> R r | Inr s' \<Rightarrow> I (trace s')"
  proof (cases "f s")
    case (Inl r)
    obtain out s' where "r = (out, s')" by (cases r)
    with Inl quiet_Inl [OF assms(1), of s out s'] assms(2) [OF \<open>I (trace s)\<close>]
      assms(3) [of s']
    show ?thesis by auto
  next
    case (Inr s')
    with quiet_Inr [OF assms(1) Inr] assms(2) [OF \<open>I (trace s)\<close>] show ?thesis by auto
  qed
qed

lemma quiet_list_all:
  assumes "quiet A f" and "\<And>ft s. list_all A (trace s) \<Longrightarrow> R (Faulted ft, s)"
  shows "step_spec (\<lambda>s. list_all A (trace s)) f (\<lambda>s. list_all A (trace s)) R"
  by (rule quiet_step_spec [where I = "list_all A", OF assms(1)]) (simp_all add: assms(2))

lemma for_loop_once: "for_loop 1 body = run_steps [body 0]"
  by (simp add: for_loop_def)

lemma step_spec_once:
  "step_spec P (body 0) Q R \<Longrightarrow> step_spec P (for_loop 1 body) Q R"
  unfolding for_loop_once by (rule step_spec_cons [OF _ step_spec_done])

lemma her2k_body_split:
  "her2k_body env argus = her2k_pre env argus @ for_loop 1 (\<lambda>iter. gpu_call env) # her2k_post env argus"
  by (simp add: her2k_body_def her2k_pre_def her2k_post_def)

lemma quiet_her2k_pre:
  assumes "\<And>v n. A (HostAlloc v n)" "\<And>v n. A (DeviceAlloc v n)" "A HipblasCreate"
    and "\<And>d s n err. A (HipMemcpy d s n hipMemcpyHostToDevice err)"
  shows "quiet A (run_steps (her2k_pre env argus))"
  by (rule quiet_run_steps)
     (auto simp: her2k_pre_def her2k_body_def assms intro!: quiet_intros quiet_when_steps)

lemma quiet_her2k_post:
  assumes "\<And>d s n err. A (HipMemcpy d s n hipMemcpyDeviceToHost err)"
    and "\<And>c. A (CblasCall c)" "A UnitCheck"
  shows "quiet A (run_steps (her2k_post env argus))"
  by (rule quiet_run_steps)
     (auto simp: her2k_post_def her2k_body_def assms intro!: quiet_intros quiet_when_steps)

lemma her2k_phases:
  assumes "\<And>v n. A1 (HostAlloc v n)" "\<And>v n. A1 (DeviceAlloc v n)" "A1 HipblasCreate"
    and "\<And>d s n err. A1 (HipMemcpy d s n hipMemcpyHostToDevice err)"
    and "\<And>d s n err. A2 (HipMemcpy d s n hipMemcpyDeviceToHost err)"
    and "\<And>c. A2 (CblasCall c)" "A2 UnitCheck"
    and gpu: "step_spec (\<lambda>s. list_all A1 (trace s)) (gpu_call env)
                (\<lambda>s :: ('a::zero) state. list_all A2 (trace s)) R"
    and faults1: "\<And>ft s. list_all A1 (trace s) \<Longrightarrow> R (Faulted ft, s)"
    and faults2: "\<And>ft s. list_all A2 (trace s) \<Longrightarrow> R (Faulted ft, s)"
  shows "step_spec (\<lambda>s. list_all A1 (trace s)) (run_steps (her2k_body env argus))
           (\<lambda>s. list_all A2 (trace s)) R"
proof -
  have pre: "step_spec (\<lambda>s. list_all A1 (trace s)) (run_steps (her2k_pre env argus))
               (\<lambda>s. list_all A1 (trace s)) R"
    by (rule quiet_list_all, rule quiet_her2k_pre) (rule assms)+
  have post: "step_spec (\<lambda>s. list_all A2 (trace s)) (run_steps (her2k_post env argus))
               (\<lambda>s. list_all A2 (trace s)) R"
    by (rule quiet_list_all, rule quiet_her2k_post) (rule assms)+
  show ?thesis
    unfolding her2k_body_split
    by (rule step_spec_append [OF pre step_spec_cons [OF step_spec_once [OF gpu] post]])
qed

lemma sbmv_body_split:
  "sbmv_body env argus =
     sbmv_pre env argus
     @ [alloc_check env argus, proceed (srand 1),
        for_loop (batch_count argus) (init_batch env argus), copy_pointers env argus]
     @ for_loop 1 (\<lambda>iter. gpu_call env) # sbmv_post env argus"
  by (simp add: sbmv_body_def sbmv_pre_def sbmv_post_def)

lemma init_batch_split:
  "init_batch env argus b = run_steps (init_pre env argus b @ [copy_batch env argus b])"
  by (simp add: init_batch_def init_pre_def)

lemma quiet_sbmv_pre:
  assumes "\<And>v n. A (DeviceAlloc v n)" "A HipblasCreate"
  shows "quiet A (run_steps (sbmv_pre env argus))"
  by (rule quiet_run_steps) (auto simp: sbmv_pre_def sbmv_body_def assms intro!: quiet_intros)

lemma quiet_init_pre:
  assumes "\<And>v n. A (HostAlloc v n)"
  shows "quiet A (run_steps (init_pre env argus b))"
  by (rule quiet_run_steps) (auto simp: init_pre_def assms intro!: quiet_intros)

lemma quiet_sbmv_post:
  assumes "\<And>d s n err. A (HipMemcpy d s n hipMemcpyDeviceToHost err)"
    and "\<And>c. A (CblasCall c)" "A UnitCheck"
  shows "quiet A (run_steps (sbmv_post env argus))"
  by (rule quiet_run_steps)
     (auto simp: sbmv_post_def sbmv_body_def assms
           intro!: quiet_intros quiet_when_steps quiet_for_loop)

lemma sbmv_phases:
  fixes R :: "outcome \<times> ('a::zero) state \<Rightarrow> bool"
  assumes "\<And>v n. A1 (HostAlloc v n)" "\<And>v n. A1 (DeviceAlloc v n)" "A1 HipblasCreate"
    and "\<And>d s n err. A2 (HipMemcpy d s n hipMemcpyDeviceToHost err)"
    and "\<And>c. A2 (CblasCall c)" "A2 UnitCheck"
    and alloc: "step_spec (\<lambda>s. list_all A1 (trace s)) (alloc_check env argus)
                  (\<lambda>s. list_all A1 (trace s)) R"
    and batch: "\<And>b. step_spec (\<lambda>s. list_all A1 (trace s)) (copy_batch env argus b)
                  (\<lambda>s. list_all A1 (trace s)) R"
    and ptrs: "step_spec (\<lambda>s. list_all A1 (trace s)) (copy_pointers env argus)
                  (\<lambda>s. list_all A1 (trace s)) R"
    and gpu: "step_spec (\<lambda>s. list_all A1 (trace s)) (gpu_call env)
                (\<lambda>s. list_all A2 (trace s)) R"
    and faults1: "\<And>ft s. list_all A1 (trace s) \<Longrightarrow> R (Faulted ft, s)"
    and faults2: "\<And>ft s. list_all A2 (trace s) \<Longrightarrow> R (Faulted ft, s)"
  shows "step_spec (\<lambda>s. list_all A1 (trace s)) (run_steps (sbmv_body env argus))
           (\<lambda>s. list_all A2 (trace s)) R"
proof -
  let ?I1 = "\<lambda>s :: 'a state. list_all A1 (trace s)"
  let ?I2 = "\<lambda>s :: 'a state. list_all A2 (trace s)"
  have pre: "step_spec ?I1 (run_steps (sbmv_pre env argus)) ?I1 R"
    by (rule quiet_list_all, rule quiet_sbmv_pre) (rule assms)+
  have srand: "step_spec ?I1 (proceed (srand 1)) ?I1 R"
    by (rule quiet_list_all, rule quiet_srand) (rule faults1)
  have ipre: "step_spec ?I1 (run_steps (init_pre env argus b)) ?I1 R" for b
    by (rule quiet_list_all, rule quiet_init_pre) (rule assms)+
  have init: "step_spec ?I1 (init_batch env argus b) ?I1 R" for b
    unfolding init_batch_split
    by (rule step_spec_append [OF ipre step_spec_cons [OF batch step_spec_done]])
  have loop: "step_spec ?I1 (for_loop (batch_count argus) (init_batch env argus)) ?I1 R"
    by (rule step_spec_for_loop) (rule init)
  have mid: "step_spec ?I1
               (run_steps [alloc_check env argus, proceed (srand 1),
                  for_loop (batch_count argus) (init_batch env argus), copy_pointers env argus])
               ?I1 R"
    by (rule step_spec_cons [OF alloc step_spec_cons [OF srand
              step_spec_cons [OF loop step_spec_cons [OF ptrs step_spec_done]]]])
  have post: "step_spec ?I2 (run_steps (sbmv_post env argus)) ?I2 R"
    by (rule quiet_list_all, rule quiet_sbmv_post) (rule assms)+
  show ?thesis
    unfolding sbmv_body_split
    by (rule step_spec_append [OF pre step_spec_append [OF mid
              step_spec_cons [OF step_spec_once [OF gpu] post]]])
qed

lemma finish_spec:
  assumes "step_spec P (run_steps body) Q R" "P start"
    and "\<And>s. Q s \<Longrightarrow> R (Returned HIPBLAS_STATUS_SUCCESS, hipblasDestroy s)"
  shows "R (finish (run_steps body start))"
  using assms by (auto simp: step_spec_def finish_def split: sum.splits)

lemma testing_her2k_finish:
  "\<not> her2k_invalid argus \<Longrightarrow> testing_her2k env argus = finish (run_steps (her2k_body env argus) start)"
  by (simp add: testing_her2k_def finish_def)

lemma testing_sbmv_batched_finish:
  "\<not> sbmv_invalid argus \<Longrightarrow> batch_count argus \<noteq> 0
   \<Longrightarrow> testing_sbmv_batched env argus = finish (run_steps (sbmv_body env argus) start)"
  by (simp add: testing_sbmv_batched_def finish_def)

section \<open>The check of the arguments\<close>

text \<open>
  C1. When a dimension is negative, a leading dimension is below its minimum (\<open>ldc < N\<close>;
  \<open>lda\<close> or \<open>ldb\<close> below \<open>N\<close> without transposition and below \<open>K\<close> with it, for her2k;
  \<open>lda < K + 1\<close> for sbmv_batched) or an increment is zero, the routine returns
  \<open>HIPBLAS_STATUS_INVALID_VALUE\<close> in the state it started in: no event has happened (no
  host or device allocation, no handle) and no host vector exists.
\<close>

theorem invalid_arguments_rejected_first:
  "(N argus <s 0 \<or> K argus <s 0 \<or> ldc argus <s N argus
      \<or> (transA argus = HIPBLAS_OP_N \<and> (lda argus <s N argus \<or> ldb argus <s N argus))
      \<or> (transA argus \<noteq> HIPBLAS_OP_N \<and> (lda argus <s K argus \<or> ldb argus <s K argus))
    \<longrightarrow> testing_her2k env argus = (Returned HIPBLAS_STATUS_INVALID_VALUE, start))
   \<and> (M argus <s 0 \<or> K argus <s 0 \<or> batch_count argus <s 0 \<or> lda argus <s K argus + 1
      \<or> incx argus = 0 \<or> incy argus = 0
    \<longrightarrow> testing_sbmv_batched env argus = (Returned HIPBLAS_STATUS_INVALID_VALUE, start))
   \<and> trace (start :: 'a::zero state) = [] \<and> host (start :: 'a state) = (\<lambda>v. None)"
  by (auto simp: testing_her2k_def testing_sbmv_batched_def her2k_invalid_def sbmv_invalid_def
      start_def)

text \<open>C1 at \<open>ldc = 1 < N = 2\<close> for her2k and at \<open>incx = 0\<close> for sbmv_batched.\<close>

theorem invalid_arguments_rejected_first_witness:
  "ldc (args0\<lparr>ldc := 1\<rparr>) <s N (args0\<lparr>ldc := 1\<rparr>)
   \<and> testing_her2k env0 (args0\<lparr>ldc := 1\<rparr>) = (Returned HIPBLAS_STATUS_INVALID_VALUE, start)
   \<and> incx (args0\<lparr>incx := 0\<rparr>) = 0
   \<and> testing_sbmv_batched env0 (args0\<lparr>incx := 0\<rparr>)
       = (Returned HIPBLAS_STATUS_INVALID_VALUE, start)"
proof -
  have 1: "ldc (args0\<lparr>ldc := 1\<rparr>) <s N (args0\<lparr>ldc := 1\<rparr>)"
    by (simp add: args0_def word_sless_alt)
  have 2: "incx (args0\<lparr>incx := 0\<rparr>) = 0"
    by simp
  from 1 2 invalid_arguments_rejected_first [of "args0\<lparr>ldc := 1\<rparr>" env0]
    invalid_arguments_rejected_first [of "args0\<lparr>incx := 0\<rparr>" env0]
  show ?thesis by blast
qed

text \<open>
  C2. With a batch count of zero and every other checked parameter acceptable,
  \<^verbatim>\<open>testing_sbmv_batched\<close> returns \<open>HIPBLAS_STATUS_SUCCESS\<close> in the state it started
  in: nothing was allocated, no batch buffer exists or was written, no handle was created.
\<close>

theorem zero_batch_count_returns_success:
  assumes "batch_count argus = 0" "0 \<le>s M argus" "0 \<le>s K argus" "K argus + 1 \<le>s lda argus"
    and "incx argus \<noteq> 0" "incy argus \<noteq> 0"
  shows "testing_sbmv_batched env argus = (Returned HIPBLAS_STATUS_SUCCESS, start)
         \<and> trace (snd (testing_sbmv_batched env argus)) = []
         \<and> host (snd (testing_sbmv_batched env argus)) = (\<lambda>v. None)"
  using assms
  by (simp add: testing_sbmv_batched_def sbmv_invalid_def start_def signed.not_less)

text \<open>C2 at \<open>M = 2\<close>, \<open>K = 1\<close>, \<open>lda = 2\<close>, increments 1 and a batch count of 0.\<close>

theorem zero_batch_count_returns_success_witness:
  "testing_sbmv_batched env0 (args0\<lparr>batch_count := 0\<rparr>) = (Returned HIPBLAS_STATUS_SUCCESS, start)
   \<and> trace (snd (testing_sbmv_batched env0 (args0\<lparr>batch_count := 0\<rparr>))) = []"
proof -
  have "batch_count (args0\<lparr>batch_count := 0\<rparr>) = 0"
    and "0 \<le>s M (args0\<lparr>batch_count := 0\<rparr>)" and "0 \<le>s K (args0\<lparr>batch_count := 0\<rparr>)"
    and "K (args0\<lparr>batch_count := 0\<rparr>) + 1 \<le>s lda (args0\<lparr>batch_count := 0\<rparr>)"
    and "incx (args0\<lparr>batch_count := 0\<rparr>) \<noteq> 0" and "incy (args0\<lparr>batch_count := 0\<rparr>) \<noteq> 0"
    by (simp_all add: args0_def word_sle_eq)
  from zero_batch_count_returns_success [OF this, of env0]
  show ?thesis by blast
qed

text \<open>
  C5, as the code has it. With a negative \<open>K\<close> both routines return
  \<open>HIPBLAS_STATUS_INVALID_VALUE\<close> from the check of the arguments, in the state they
  started in: the handle is neither created nor destroyed.
\<close>

theorem negative_k_no_handle:
  "K argus <s 0 \<Longrightarrow>
     testing_her2k env argus = (Returned HIPBLAS_STATUS_INVALID_VALUE, start)
     \<and> testing_sbmv_batched env argus = (Returned HIPBLAS_STATUS_INVALID_VALUE, start)
     \<and> count_list (trace (snd (testing_her2k env argus))) HipblasCreate = 0
     \<and> count_list (trace (snd (testing_her2k env argus))) HipblasDestroy = 0
     \<and> count_list (trace (snd (testing_sbmv_batched env argus))) HipblasCreate = 0
     \<and> count_list (trace (snd (testing_sbmv_batched env argus))) HipblasDestroy = 0"
  by (simp add: testing_her2k_def testing_sbmv_batched_def her2k_invalid_def sbmv_invalid_def
      start_def)

text \<open>C5 as amended, at \<open>K = -1\<close>.\<close>

theorem negative_k_no_handle_witness:
  "K args_negative_k <s 0
   \<and> testing_her2k env0 args_negative_k = (Returned HIPBLAS_STATUS_INVALID_VALUE, start)
   \<and> count_list (trace (snd (testing_her2k env0 args_negative_k))) HipblasDestroy = 0
   \<and> count_list (trace (snd (testing_sbmv_batched env0 args_negative_k))) HipblasDestroy = 0"
proof -
  have "K args_negative_k <s 0"
    by (simp add: args_negative_k_def)
  from this negative_k_no_handle [OF this, of env0] show ?thesis
    by blast
qed

text \<open>
  C5 as stated fails: at \<open>K = -1\<close> the number of times the handle is destroyed is not one,
  in either routine.
\<close>

theorem negative_k_destroys_nothing:
  "K args_negative_k <s 0
   \<and> count_list (trace (snd (testing_her2k env0 args_negative_k))) HipblasDestroy \<noteq> 1
   \<and> count_list (trace (snd (testing_sbmv_batched env0 args_negative_k))) HipblasDestroy \<noteq> 1"
  by (simp add: testing_her2k_def testing_sbmv_batched_def her2k_invalid_def sbmv_invalid_def
      start_def args_negative_k_def args0_def)

section \<open>The handle\<close>

lemma returns_destroyed_once:
  "list_all (\<lambda>e. e \<noteq> HipblasDestroy) (trace s) \<Longrightarrow> destroyed_once (out, hipblasDestroy s)"
  by (auto simp: destroyed_once_def hipblasDestroy_def emit_def list_all_iff count_list_0_iff)

lemma gpu_call_once:
  "step_spec (\<lambda>s. list_all (\<lambda>e. e \<noteq> HipblasDestroy) (trace s)) (gpu_call env)
     (\<lambda>s. list_all (\<lambda>e. e \<noteq> HipblasDestroy) (trace s))
     (\<lambda>r. \<forall>st. fst r = Returned st \<longrightarrow> destroyed_once r)"
  by (auto simp: step_spec_def gpu_call_def gpu_routine_def emit_def intro!: returns_destroyed_once)

lemma alloc_check_once:
  "step_spec (\<lambda>s. list_all (\<lambda>e. e \<noteq> HipblasDestroy) (trace s)) (alloc_check env argus)
     (\<lambda>s. list_all (\<lambda>e. e \<noteq> HipblasDestroy) (trace s))
     (\<lambda>r. \<forall>st. fst r = Returned st \<longrightarrow> destroyed_once r)"
  by (auto simp: step_spec_def alloc_check_def Let_def intro!: returns_destroyed_once)

lemma copy_batch_once:
  "step_spec (\<lambda>s. list_all (\<lambda>e. e \<noteq> HipblasDestroy) (trace s)) (copy_batch env argus b)
     (\<lambda>s. list_all (\<lambda>e. e \<noteq> HipblasDestroy) (trace s))
     (\<lambda>r. \<forall>st. fst r = Returned st \<longrightarrow> destroyed_once r)"
  by (auto simp: step_spec_def copy_batch_def hipMemcpy_def Let_def emit_def
           intro!: returns_destroyed_once)

lemma copy_pointers_once:
  "step_spec (\<lambda>s. list_all (\<lambda>e. e \<noteq> HipblasDestroy) (trace s)) (copy_pointers env argus)
     (\<lambda>s. list_all (\<lambda>e. e \<noteq> HipblasDestroy) (trace s))
     (\<lambda>r. \<forall>st. fst r = Returned st \<longrightarrow> destroyed_once r)"
  by (auto simp: step_spec_def copy_pointers_def hipMemcpy_def Let_def emit_def
           intro!: returns_destroyed_once)

lemma her2k_once:
  assumes "\<not> her2k_invalid argus" "fst (testing_her2k env argus) = Returned st"
  shows "destroyed_once (testing_her2k env argus)"
proof -
  have "step_spec (\<lambda>s. list_all (\<lambda>e. e \<noteq> HipblasDestroy) (trace s))
          (run_steps (her2k_body env argus))
          (\<lambda>s. list_all (\<lambda>e. e \<noteq> HipblasDestroy) (trace s))
          (\<lambda>r. \<forall>st. fst r = Returned st \<longrightarrow> destroyed_once r)"
    by (rule her2k_phases [OF _ _ _ _ _ _ _ gpu_call_once]) simp_all
  then have "\<forall>st. fst (finish (run_steps (her2k_body env argus) start)) = Returned st
               \<longrightarrow> destroyed_once (finish (run_steps (her2k_body env argus) start))"
    by (rule finish_spec) (simp_all add: start_def returns_destroyed_once)
  with assms show ?thesis
    by (simp add: testing_her2k_finish)
qed

lemma sbmv_once:
  assumes "\<not> sbmv_invalid argus" "batch_count argus \<noteq> 0"
    and "fst (testing_sbmv_batched env argus) = Returned st"
  shows "destroyed_once (testing_sbmv_batched env argus)"
proof -
  have "step_spec (\<lambda>s. list_all (\<lambda>e. e \<noteq> HipblasDestroy) (trace s))
          (run_steps (sbmv_body env argus))
          (\<lambda>s. list_all (\<lambda>e. e \<noteq> HipblasDestroy) (trace s))
          (\<lambda>r. \<forall>st. fst r = Returned st \<longrightarrow> destroyed_once r)"
    by (rule sbmv_phases [OF _ _ _ _ _ _ alloc_check_once copy_batch_once copy_pointers_once
          gpu_call_once]) simp_all
  then have "\<forall>st. fst (finish (run_steps (sbmv_body env argus) start)) = Returned st
               \<longrightarrow> destroyed_once (finish (run_steps (sbmv_body env argus) start))"
    by (rule finish_spec) (simp_all add: start_def returns_destroyed_once)
  with assms show ?thesis
    by (simp add: testing_sbmv_batched_finish)
qed

lemma her2k_gate_trace: "her2k_invalid argus \<Longrightarrow> trace (snd (testing_her2k env argus)) = []"
  by (simp add: testing_her2k_def start_def)

lemma sbmv_gate_trace:
  "sbmv_invalid argus \<or> batch_count argus = 0 \<Longrightarrow> trace (snd (testing_sbmv_batched env argus)) = []"
  by (auto simp: testing_sbmv_batched_def start_def)

text \<open>
  C7, as the code has it. On every run that creates the handle and returns a status, be it
  an early return (device allocation failed, a copy failed, the GPU routine failed) or the
  normal one, the handle is destroyed exactly once, and that is the last thing the run
  does. A run that leaves the routine without returning, by an exception after
  \<^verbatim>\<open>hipblasCreate\<close>, is not covered.
\<close>

theorem handle_destroyed_exactly_once:
  "(HipblasCreate \<in> set (trace (snd (testing_her2k env argus)))
      \<and> fst (testing_her2k env argus) = Returned st
    \<longrightarrow> count_list (trace (snd (testing_her2k env argus))) HipblasDestroy = 1
        \<and> last (trace (snd (testing_her2k env argus))) = HipblasDestroy)
   \<and> (HipblasCreate \<in> set (trace (snd (testing_sbmv_batched env argus)))
      \<and> fst (testing_sbmv_batched env argus) = Returned st
    \<longrightarrow> count_list (trace (snd (testing_sbmv_batched env argus))) HipblasDestroy = 1
        \<and> last (trace (snd (testing_sbmv_batched env argus))) = HipblasDestroy)"
proof (intro conjI impI; elim conjE)
  assume c: "HipblasCreate \<in> set (trace (snd (testing_her2k env argus)))"
    and r: "fst (testing_her2k env argus) = Returned st"
  from c have "\<not> her2k_invalid argus"
    using her2k_gate_trace [of argus env] by auto
  from her2k_once [OF this r]
  show "count_list (trace (snd (testing_her2k env argus))) HipblasDestroy = 1"
    and "last (trace (snd (testing_her2k env argus))) = HipblasDestroy"
    by (simp_all add: destroyed_once_def)
next
  assume c: "HipblasCreate \<in> set (trace (snd (testing_sbmv_batched env argus)))"
    and r: "fst (testing_sbmv_batched env argus) = Returned st"
  from c have "\<not> sbmv_invalid argus" "batch_count argus \<noteq> 0"
    using sbmv_gate_trace [of argus env] by auto
  from sbmv_once [OF this r]
  show "count_list (trace (snd (testing_sbmv_batched env argus))) HipblasDestroy = 1"
    and "last (trace (snd (testing_sbmv_batched env argus))) = HipblasDestroy"
    by (simp_all add: destroyed_once_def)
qed

text \<open>
  C7 as amended, on a run of her2k that returns normally and on a run of sbmv_batched that returns early,
  after the failed copy of \<^verbatim>\<open>hx_array[1]\<close>.
\<close>

theorem handle_destroyed_exactly_once_witness:
  "HipblasCreate \<in> set (trace (snd (testing_her2k env0 args0)))
   \<and> fst (testing_her2k env0 args0) = Returned HIPBLAS_STATUS_SUCCESS
   \<and> count_list (trace (snd (testing_her2k env0 args0))) HipblasDestroy = 1
   \<and> HipblasCreate \<in> set (trace (snd (testing_sbmv_batched env_copy_x1_fails args0)))
   \<and> fst (testing_sbmv_batched env_copy_x1_fails args0) = Returned HIPBLAS_STATUS_MAPPING_ERROR
   \<and> count_list (trace (snd (testing_sbmv_batched env_copy_x1_fails args0))) HipblasDestroy = 1"
proof -
  have 1: "HipblasCreate \<in> set (trace (snd (testing_her2k env0 args0)))"
    by code_simp
  have 2: "fst (testing_her2k env0 args0) = Returned HIPBLAS_STATUS_SUCCESS"
    by code_simp
  have 3: "HipblasCreate \<in> set (trace (snd (testing_sbmv_batched env_copy_x1_fails args0)))"
    by code_simp
  have 4: "fst (testing_sbmv_batched env_copy_x1_fails args0)
             = Returned HIPBLAS_STATUS_MAPPING_ERROR"
    by code_simp
  from 1 2 3 4
    handle_destroyed_exactly_once [of env0 args0 HIPBLAS_STATUS_SUCCESS]
    handle_destroyed_exactly_once [of env_copy_x1_fails args0 HIPBLAS_STATUS_MAPPING_ERROR]
  show ?thesis by blast
qed

text \<open>
  C7 as stated fails: \<^verbatim>\<open>testing_sbmv_batched\<close> at \<open>M = 2\<close>, \<open>K = 1\<close>, \<open>lda = 2\<close>,
  \<open>incx = -1\<close>, \<open>incy = 1\<close> and two batches, with every outside call reported as
  successful, creates the handle, then the construction of \<^verbatim>\<open>hx_array[0]\<close> with the
  size \<open>-2\<close> throws: the run ends without a status and the handle is never destroyed.
\<close>

theorem handle_leaked_on_exception:
  "HipblasCreate \<in> set (trace (snd (testing_sbmv_batched env0 args_negative_incx)))
   \<and> fst (testing_sbmv_batched env0 args_negative_incx) = Faulted BadAlloc
   \<and> count_list (trace (snd (testing_sbmv_batched env0 args_negative_incx))) HipblasDestroy = 0
   \<and> count_list (trace (snd (testing_sbmv_batched env0 args_negative_incx))) HipblasDestroy \<noteq> 1"
  by code_simp

section \<open>Failure of the GPU routine\<close>

lemma before_gpu_no_failure: "before_gpu e \<Longrightarrow> \<not> gpu_failure e"
  by (cases e) simp_all

lemma no_failure_gpu_abort:
  "list_all (\<lambda>e. \<not> gpu_failure e) (trace s) \<Longrightarrow> gpu_abort (out, s)"
  by (auto simp: gpu_abort_def list_all_iff)

lemma no_failure_gpu_abort_destroy:
  "list_all (\<lambda>e. \<not> gpu_failure e) (trace s) \<Longrightarrow> gpu_abort (out, hipblasDestroy s)"
  by (rule no_failure_gpu_abort) (simp add: hipblasDestroy_def emit_def)

lemma before_gpu_abort:
  "list_all before_gpu (trace s) \<Longrightarrow> gpu_abort (out, s)"
  by (rule no_failure_gpu_abort) (auto simp: list_all_iff before_gpu_no_failure)

lemma gpu_call_abort:
  "step_spec (\<lambda>s. list_all before_gpu (trace s)) (gpu_call env)
     (\<lambda>s. list_all (\<lambda>e. \<not> gpu_failure e) (trace s)) gpu_abort"
  by (auto simp: step_spec_def gpu_call_def gpu_routine_def emit_def hipblasDestroy_def
        gpu_abort_def aborted_after_def list_all_iff before_gpu_no_failure butlast_append)

lemma alloc_check_abort:
  "step_spec (\<lambda>s. list_all before_gpu (trace s)) (alloc_check env argus)
     (\<lambda>s. list_all before_gpu (trace s)) gpu_abort"
  by (auto simp: step_spec_def alloc_check_def Let_def list_all_iff before_gpu_no_failure
           intro!: no_failure_gpu_abort_destroy)

lemma copy_batch_abort:
  "step_spec (\<lambda>s. list_all before_gpu (trace s)) (copy_batch env argus b)
     (\<lambda>s. list_all before_gpu (trace s)) gpu_abort"
  by (auto simp: step_spec_def copy_batch_def hipMemcpy_def emit_def Let_def list_all_iff
        before_gpu_no_failure intro!: no_failure_gpu_abort_destroy)

lemma copy_pointers_abort:
  "step_spec (\<lambda>s. list_all before_gpu (trace s)) (copy_pointers env argus)
     (\<lambda>s. list_all before_gpu (trace s)) gpu_abort"
  by (auto simp: step_spec_def copy_pointers_def hipMemcpy_def emit_def Let_def list_all_iff
        before_gpu_no_failure intro!: no_failure_gpu_abort_destroy)

lemma her2k_gpu_abort: "gpu_abort (testing_her2k env argus)"
proof (cases "her2k_invalid argus")
  case True
  then show ?thesis
    by (simp add: testing_her2k_def gpu_abort_def start_def)
next
  case False
  have "step_spec (\<lambda>s. list_all before_gpu (trace s)) (run_steps (her2k_body env argus))
          (\<lambda>s. list_all (\<lambda>e. \<not> gpu_failure e) (trace s)) gpu_abort"
    by (rule her2k_phases [OF _ _ _ _ _ _ _ gpu_call_abort])
       (simp_all add: before_gpu_abort no_failure_gpu_abort)
  then have "gpu_abort (finish (run_steps (her2k_body env argus) start))"
    by (rule finish_spec) (simp_all add: start_def no_failure_gpu_abort_destroy)
  with False show ?thesis
    by (simp add: testing_her2k_finish)
qed

lemma sbmv_gpu_abort: "gpu_abort (testing_sbmv_batched env argus)"
proof (cases "sbmv_invalid argus \<or> batch_count argus = 0")
  case True
  then show ?thesis
    by (auto simp: testing_sbmv_batched_def gpu_abort_def start_def)
next
  case False
  have "step_spec (\<lambda>s. list_all before_gpu (trace s)) (run_steps (sbmv_body env argus))
          (\<lambda>s. list_all (\<lambda>e. \<not> gpu_failure e) (trace s)) gpu_abort"
    by (rule sbmv_phases [OF _ _ _ _ _ _ alloc_check_abort copy_batch_abort copy_pointers_abort
          gpu_call_abort])
       (simp_all add: before_gpu_abort no_failure_gpu_abort)
  then have "gpu_abort (finish (run_steps (sbmv_body env argus) start))"
    by (rule finish_spec) (simp_all add: start_def no_failure_gpu_abort_destroy)
  with False show ?thesis
    by (simp add: testing_sbmv_batched_finish)
qed

text \<open>
  C3. When the GPU routine was called and returned a status \<open>st\<close> other than success, the
  routine returns \<open>st\<close>; the call is followed by the destruction of the handle and by
  nothing else; and before the call there are only allocations, the creation of the handle
  and copies to the device: no other call of the GPU routine, no copy back to the host, no
  call of the CPU reference routine, no comparison, no earlier destruction.
\<close>

theorem gpu_failure_aborts:
  "(GpuCall st \<in> set (trace (snd (testing_her2k env argus))) \<and> st \<noteq> HIPBLAS_STATUS_SUCCESS
    \<longrightarrow> fst (testing_her2k env argus) = Returned st
        \<and> aborted_after (GpuCall st) (testing_her2k env argus))
   \<and> (GpuCall st \<in> set (trace (snd (testing_sbmv_batched env argus)))
        \<and> st \<noteq> HIPBLAS_STATUS_SUCCESS
    \<longrightarrow> fst (testing_sbmv_batched env argus) = Returned st
        \<and> aborted_after (GpuCall st) (testing_sbmv_batched env argus))"
  using her2k_gpu_abort [of env argus] sbmv_gpu_abort [of env argus]
  unfolding gpu_abort_def by blast

text \<open>C3 where the GPU routine returns a status that is none of the four named ones.\<close>

theorem gpu_failure_aborts_witness:
  "GpuCall (HIPBLAS_STATUS_OTHER 5) \<in> set (trace (snd (testing_her2k env_gpu_fails args0)))
   \<and> fst (testing_her2k env_gpu_fails args0) = Returned (HIPBLAS_STATUS_OTHER 5)
   \<and> aborted_after (GpuCall (HIPBLAS_STATUS_OTHER 5)) (testing_her2k env_gpu_fails args0)
   \<and> GpuCall (HIPBLAS_STATUS_OTHER 5)
        \<in> set (trace (snd (testing_sbmv_batched env_gpu_fails args0)))
   \<and> fst (testing_sbmv_batched env_gpu_fails args0) = Returned (HIPBLAS_STATUS_OTHER 5)
   \<and> aborted_after (GpuCall (HIPBLAS_STATUS_OTHER 5)) (testing_sbmv_batched env_gpu_fails args0)"
proof -
  have 1: "GpuCall (HIPBLAS_STATUS_OTHER 5)
             \<in> set (trace (snd (testing_her2k env_gpu_fails args0)))"
    by code_simp
  have 2: "GpuCall (HIPBLAS_STATUS_OTHER 5)
             \<in> set (trace (snd (testing_sbmv_batched env_gpu_fails args0)))"
    by code_simp
  have 3: "HIPBLAS_STATUS_OTHER 5 \<noteq> HIPBLAS_STATUS_SUCCESS"
    by simp
  from 1 2 3 gpu_failure_aborts [of "HIPBLAS_STATUS_OTHER 5" env_gpu_fails args0]
  show ?thesis by blast
qed

section \<open>Failure of a copy\<close>

lemma no_failed_copy_abort:
  "list_all (\<lambda>e. \<not> failed_h2d e) (trace s) \<Longrightarrow> copy_abort (out, s)"
  by (auto simp: copy_abort_def list_all_iff)

lemma no_failed_copy_abort_destroy:
  "list_all (\<lambda>e. \<not> failed_h2d e) (trace s) \<Longrightarrow> copy_abort (out, hipblasDestroy s)"
  by (rule no_failed_copy_abort) (simp add: hipblasDestroy_def emit_def)

lemma good_copies_abort:
  "list_all (\<lambda>e. before_gpu e \<and> \<not> failed_h2d e) (trace s) \<Longrightarrow> copy_abort (out, s)"
  by (rule no_failed_copy_abort) (auto simp: list_all_iff)

lemma gpu_call_copies:
  "step_spec (\<lambda>s. list_all (\<lambda>e. before_gpu e \<and> \<not> failed_h2d e) (trace s)) (gpu_call env)
     (\<lambda>s. list_all (\<lambda>e. \<not> failed_h2d e) (trace s)) copy_abort"
  by (auto simp: step_spec_def gpu_call_def gpu_routine_def emit_def list_all_iff
           intro!: no_failed_copy_abort_destroy)

lemma alloc_check_copies:
  "step_spec (\<lambda>s. list_all (\<lambda>e. before_gpu e \<and> \<not> failed_h2d e) (trace s)) (alloc_check env argus)
     (\<lambda>s. list_all (\<lambda>e. before_gpu e \<and> \<not> failed_h2d e) (trace s)) copy_abort"
  by (auto simp: step_spec_def alloc_check_def Let_def list_all_iff
           intro!: no_failed_copy_abort_destroy)

lemma copy_batch_copies:
  "step_spec (\<lambda>s. list_all (\<lambda>e. before_gpu e \<and> \<not> failed_h2d e) (trace s)) (copy_batch env argus b)
     (\<lambda>s. list_all (\<lambda>e. before_gpu e \<and> \<not> failed_h2d e) (trace s)) copy_abort"
  by (auto simp: step_spec_def copy_batch_def hipMemcpy_def emit_def Let_def list_all_iff
        copy_abort_def hipblasDestroy_def butlast_append)

lemma copy_pointers_copies:
  "step_spec (\<lambda>s. list_all (\<lambda>e. before_gpu e \<and> \<not> failed_h2d e) (trace s)) (copy_pointers env argus)
     (\<lambda>s. list_all (\<lambda>e. before_gpu e \<and> \<not> failed_h2d e) (trace s)) copy_abort"
  by (auto simp: step_spec_def copy_pointers_def hipMemcpy_def emit_def Let_def list_all_iff
        copy_abort_def hipblasDestroy_def butlast_append)

lemma sbmv_copy_abort: "copy_abort (testing_sbmv_batched env argus)"
proof (cases "sbmv_invalid argus \<or> batch_count argus = 0")
  case True
  then show ?thesis
    by (auto simp: testing_sbmv_batched_def copy_abort_def start_def)
next
  case False
  have "step_spec (\<lambda>s. list_all (\<lambda>e. before_gpu e \<and> \<not> failed_h2d e) (trace s))
          (run_steps (sbmv_body env argus))
          (\<lambda>s. list_all (\<lambda>e. \<not> failed_h2d e) (trace s)) copy_abort"
    by (rule sbmv_phases [OF _ _ _ _ _ _ alloc_check_copies copy_batch_copies
          copy_pointers_copies gpu_call_copies])
       (simp_all add: good_copies_abort no_failed_copy_abort)
  then have "copy_abort (finish (run_steps (sbmv_body env argus) start))"
    by (rule finish_spec) (simp_all add: start_def no_failed_copy_abort_destroy)
  with False show ?thesis
    by (simp add: testing_sbmv_batched_finish)
qed

lemma her2k_returns:
  assumes "\<not> her2k_invalid argus"
  shows "her2k_statuses env (testing_her2k env argus)"
proof -
  have "step_spec (\<lambda>s. list_all (\<lambda>e. True) (trace s)) (run_steps (her2k_body env argus))
          (\<lambda>s. list_all (\<lambda>e. True) (trace s)) (her2k_statuses env)"
    by (rule her2k_phases)
       (auto simp: her2k_statuses_def step_spec_def gpu_call_def gpu_routine_def emit_def
          list_all_iff)
  then have "her2k_statuses env (finish (run_steps (her2k_body env argus) start))"
    by (rule finish_spec) (simp_all add: her2k_statuses_def start_def)
  with assms show ?thesis
    by (simp add: testing_her2k_finish)
qed

text \<open>
  C6, as the code has it. In \<^verbatim>\<open>testing_sbmv_batched\<close>, when a copy to the device (of
  a batch item or of a pointer array) returned a status other than \<open>hipSuccess\<close>, the
  routine returns \<open>HIPBLAS_STATUS_MAPPING_ERROR\<close>, the destruction of the handle is the
  last thing it does, and before it there are only allocations, the creation of the handle
  and copies to the device. \<^verbatim>\<open>testing_her2k\<close> does not look at the status of its
  copies: the statuses it returns are that of the check of the arguments, success and that
  of the GPU routine.
\<close>

theorem failed_copy_aborts_sbmv:
  "(HipMemcpy dst src n hipMemcpyHostToDevice err
      \<in> set (trace (snd (testing_sbmv_batched env argus))) \<and> err \<noteq> hipSuccess
    \<longrightarrow> fst (testing_sbmv_batched env argus) = Returned HIPBLAS_STATUS_MAPPING_ERROR
        \<and> last (trace (snd (testing_sbmv_batched env argus))) = HipblasDestroy
        \<and> list_all before_gpu (butlast (trace (snd (testing_sbmv_batched env argus)))))
   \<and> (fst (testing_her2k env argus) = Returned st
    \<longrightarrow> st = HIPBLAS_STATUS_INVALID_VALUE \<or> st = HIPBLAS_STATUS_SUCCESS \<or> st = gpu_status env)"
proof (intro conjI impI)
  assume a: "HipMemcpy dst src n hipMemcpyHostToDevice err
               \<in> set (trace (snd (testing_sbmv_batched env argus))) \<and> err \<noteq> hipSuccess"
  then have "\<exists>e \<in> set (trace (snd (testing_sbmv_batched env argus))). failed_h2d e"
    by (intro bexI [where x = "HipMemcpy dst src n hipMemcpyHostToDevice err"]) simp_all
  with sbmv_copy_abort [of env argus]
  show "fst (testing_sbmv_batched env argus) = Returned HIPBLAS_STATUS_MAPPING_ERROR"
    and "last (trace (snd (testing_sbmv_batched env argus))) = HipblasDestroy"
    and "list_all before_gpu (butlast (trace (snd (testing_sbmv_batched env argus))))"
    by (simp_all add: copy_abort_def)
next
  assume r: "fst (testing_her2k env argus) = Returned st"
  show "st = HIPBLAS_STATUS_INVALID_VALUE \<or> st = HIPBLAS_STATUS_SUCCESS \<or> st = gpu_status env"
  proof (cases "her2k_invalid argus")
    case True
    with r show ?thesis by (simp add: testing_her2k_def)
  next
    case False
    from her2k_returns [OF False, of env] r show ?thesis
      by (simp add: her2k_statuses_def)
  qed
qed

text \<open>
  C6 as amended, where the copy of \<^verbatim>\<open>hx_array[1]\<close> fails: the first batch item and
  \<^verbatim>\<open>hA_array[1]\<close> were copied, \<^verbatim>\<open>hy_array[1]\<close> is still copied, then the routine
  leaves.
\<close>

theorem failed_copy_aborts_sbmv_witness:
  "HipMemcpy (Item bx_array 1) (Item hx_array 1) 2 hipMemcpyHostToDevice (hipErrorCode 1)
     \<in> set (trace (snd (testing_sbmv_batched env_copy_x1_fails args0)))
   \<and> fst (testing_sbmv_batched env_copy_x1_fails args0) = Returned HIPBLAS_STATUS_MAPPING_ERROR
   \<and> last (trace (snd (testing_sbmv_batched env_copy_x1_fails args0))) = HipblasDestroy
   \<and> fst (testing_her2k env_copy_dA_fails args0) = Returned HIPBLAS_STATUS_SUCCESS"
proof -
  have 1: "HipMemcpy (Item bx_array 1) (Item hx_array 1) 2 hipMemcpyHostToDevice (hipErrorCode 1)
             \<in> set (trace (snd (testing_sbmv_batched env_copy_x1_fails args0)))"
    by code_simp
  have 2: "hipErrorCode 1 \<noteq> hipSuccess"
    by simp
  have 3: "fst (testing_her2k env_copy_dA_fails args0) = Returned HIPBLAS_STATUS_SUCCESS"
    by code_simp
  from 1 2 3
    failed_copy_aborts_sbmv [of "Item bx_array 1" "Item hx_array 1" 2 "hipErrorCode 1"
      env_copy_x1_fails args0 HIPBLAS_STATUS_SUCCESS]
  show ?thesis by blast
qed

text \<open>
  C6 as stated fails in \<^verbatim>\<open>testing_her2k\<close>: the copy of \<^verbatim>\<open>hA\<close> to the device fails,
  the routine goes on to call the GPU routine and returns success.
\<close>

theorem her2k_ignores_failed_copy:
  "HipMemcpy (Buf dA) (Buf hA) 2 hipMemcpyHostToDevice (hipErrorCode 1)
     \<in> set (trace (snd (testing_her2k env_copy_dA_fails args0)))
   \<and> GpuCall HIPBLAS_STATUS_SUCCESS \<in> set (trace (snd (testing_her2k env_copy_dA_fails args0)))
   \<and> fst (testing_her2k env_copy_dA_fails args0) = Returned HIPBLAS_STATUS_SUCCESS
   \<and> fst (testing_her2k env_copy_dA_fails args0) \<noteq> Returned HIPBLAS_STATUS_MAPPING_ERROR"
  by code_simp

section \<open>\<open>N = 0\<close>\<close>

lemma init_indices_no_rows: "init_indices 0 n ld = []"
  by (simp add: init_indices_def)

lemma hipblas_init_no_rows: "hipblas_init env v 0 n ld s = Inr s"
  by (simp add: hipblas_init_def init_indices_no_rows)

lemma sbmv_sizes_ignore_n:
  "sbmv_A_size (argus\<lparr>N := n\<rparr>) = sbmv_A_size argus"
  "X_size (argus\<lparr>N := n\<rparr>) = X_size argus"
  "Y_size (argus\<lparr>N := n\<rparr>) = Y_size argus"
  "sbmv_invalid (argus\<lparr>N := n\<rparr>) = sbmv_invalid argus"
  by (simp_all add: sbmv_A_size_def X_size_def Y_size_def sbmv_invalid_def)

lemma alloc_check_ignores_n: "alloc_check env (argus\<lparr>N := n\<rparr>) = alloc_check env argus"
  by (intro ext) (simp add: alloc_check_def sbmv_sizes_ignore_n)

lemma copy_batch_ignores_n: "copy_batch env (argus\<lparr>N := n\<rparr>) = copy_batch env argus"
  by (intro ext) (simp add: copy_batch_def sbmv_sizes_ignore_n)

lemma copy_pointers_ignores_n: "copy_pointers env (argus\<lparr>N := n\<rparr>) = copy_pointers env argus"
  by (intro ext) (simp add: copy_pointers_def)

lemma init_batch_ignores_n: "init_batch env (argus\<lparr>N := n\<rparr>) = init_batch env argus"
  by (intro ext) (simp add: init_batch_def sbmv_sizes_ignore_n copy_batch_ignores_n)

lemma sbmv_ignores_n: "testing_sbmv_batched env (argus\<lparr>N := n\<rparr>) = testing_sbmv_batched env argus"
  by (simp add: testing_sbmv_batched_def sbmv_body_def sbmv_sizes_ignore_n
        alloc_check_ignores_n copy_pointers_ignores_n init_batch_ignores_n)

text \<open>
  C4, as the code has it. \<^verbatim>\<open>testing_her2k\<close> has no early return for \<open>N = 0\<close>. With
  \<open>N = 0\<close>, arguments that pass the check and a product \<open>lda * K1\<close> that is not negative
  as an \<^verbatim>\<open>int\<close>, it allocates its four host and three device buffers (those of \<open>C\<close>
  with zero elements), creates the handle, copies to the device and calls the GPU routine
  once; it returns the status of the GPU routine, so success exactly when that succeeds,
  and destroys the handle last. No element of a host buffer is written: \<^verbatim>\<open>hA\<close> and
  \<^verbatim>\<open>hB\<close> still hold the zeros of their allocation, \<^verbatim>\<open>hC\<close> and \<^verbatim>\<open>hC2\<close> are empty.
  The comparison is called, on a matrix without elements, when the GPU routine succeeded and
  \<open>unit_check\<close> is set. \<^verbatim>\<open>testing_sbmv_batched\<close> does not read \<open>N\<close>.
\<close>

theorem her2k_zero_n_runs:
  assumes "N argus = 0" "\<not> her2k_invalid argus" "\<not> her2k_A_size argus <s 0"
  shows "fst (testing_her2k env argus) = Returned (gpu_status env)
         \<and> trace (snd (testing_her2k env argus)) = her2k_empty_trace env argus
         \<and> host (snd (testing_her2k env argus)) (Buf hA)
             = Some (replicate (nat (sint (her2k_A_size argus))) 0)
         \<and> host (snd (testing_her2k env argus)) (Buf hB)
             = Some (replicate (nat (sint (B_size argus))) 0)
         \<and> host (snd (testing_her2k env argus)) (Buf hC) = Some []
         \<and> host (snd (testing_her2k env argus)) (Buf hC2) = Some []
         \<and> testing_sbmv_batched env (argus\<lparr>N := n\<rparr>) = testing_sbmv_batched env argus"
  using assms
  by (simp add: testing_her2k_def her2k_body_def her2k_empty_trace_def B_size_def C_size_def
        her2k_A_size_def [symmetric] host_vector_def device_vector_def proceed_def
        hipblasCreate_def hipblasDestroy_def srand_def hipblas_init_no_rows ignore_status_def
        hipMemcpy_def for_loop_once gpu_call_def gpu_routine_def when_steps_def cblas_def
        unit_check_general_def emit_def start_def contents_def Let_def sbmv_ignores_n
        get_time_us_def)

text \<open>C4 as amended, at \<open>N = 0\<close>, \<open>K = 1\<close>, \<open>lda = ldb = ldc = 2\<close>, when the GPU routine fails.\<close>

theorem her2k_zero_n_runs_witness:
  "N args_zero_n = 0
   \<and> fst (testing_her2k env_gpu_fails args_zero_n) = Returned (HIPBLAS_STATUS_OTHER 5)
   \<and> length (trace (snd (testing_her2k env_gpu_fails args_zero_n))) = 13
   \<and> host (snd (testing_her2k env_gpu_fails args_zero_n)) (Buf hA) = Some [0, 0]"
proof -
  have 1: "N args_zero_n = 0"
    by (simp add: args_zero_n_def)
  have 2: "\<not> her2k_invalid args_zero_n"
    by (simp add: args_zero_n_def args0_def her2k_invalid_def word_sless_alt)
  have 3: "\<not> her2k_A_size args_zero_n <s 0"
    by (simp add: args_zero_n_def args0_def her2k_A_size_def K1_def word_sless_alt)
  have 4: "gpu_status env_gpu_fails = HIPBLAS_STATUS_OTHER 5"
    by (simp add: env_gpu_fails_def)
  have 5: "length (her2k_empty_trace env_gpu_fails args_zero_n) = 13"
    by (simp add: her2k_empty_trace_def 4)
  have 6: "replicate (nat (sint (her2k_A_size args_zero_n))) (0::int) = [0, 0]"
    by (simp add: args_zero_n_def args0_def her2k_A_size_def K1_def numeral_2_eq_2)
  from her2k_zero_n_runs [OF 1 2 3, of env_gpu_fails] 1 4 5 6
  show ?thesis by simp
qed

text \<open>
  C4 as stated fails: at \<open>N = 0\<close>, \<open>K = 1\<close>, \<open>lda = ldb = ldc = 2\<close>, with every outside
  call succeeding, \<^verbatim>\<open>testing_her2k\<close> allocates \<^verbatim>\<open>hA\<close> with two elements, creates the
  handle, calls the GPU routine and the comparison.
\<close>

theorem her2k_zero_n_not_immediate:
  "N args_zero_n = 0
   \<and> \<not> her2k_invalid args_zero_n
   \<and> HostAlloc (Buf hA) 2 \<in> set (trace (snd (testing_her2k env0 args_zero_n)))
   \<and> HipblasCreate \<in> set (trace (snd (testing_her2k env0 args_zero_n)))
   \<and> GpuCall HIPBLAS_STATUS_SUCCESS \<in> set (trace (snd (testing_her2k env0 args_zero_n)))
   \<and> UnitCheck \<in> set (trace (snd (testing_her2k env0 args_zero_n)))"
  by code_simp

section \<open>Initialisation of the batch items\<close>

lemma length_fill: "length (fst (fill env idxs (xs, g))) = length xs"
  by (induction idxs arbitrary: xs g) simp_all

lemma host_vector_Inr:
  assumes "host_vector v n s = Inr s'"
  shows "host s' = (host s)(v \<mapsto> replicate (nat (sint n)) 0)" and "rng s' = rng s"
  using assms by (auto simp: host_vector_def emit_def split: if_splits)

lemma store_random_Inr:
  assumes "store_random env v idx s = Inr s'" "host s v = Some xs"
  shows "host s' = (host s)(v \<mapsto> xs[nat (sint idx) := rand_stream env (fst (rng s)) (snd (rng s))])"
    and "rng s' = (fst (rng s), Suc (snd (rng s)))"
  using assms by (auto simp: store_random_def contents_def Let_def split: if_splits)

lemma run_store_random:
  assumes "run_steps (map (store_random env v) idxs) s = Inr s'" "host s v = Some xs"
  shows "host s' = (host s)(v \<mapsto> fst (fill env idxs (xs, rng s)))
         \<and> rng s' = snd (fill env idxs (xs, rng s))"
  using assms
proof (induction idxs arbitrary: s xs)
  case Nil
  then show ?case by (simp add: map_upd_triv)
next
  case (Cons idx idxs)
  from Cons.prems(1) obtain s1 where
    1: "store_random env v idx s = Inr s1"
    and 2: "run_steps (map (store_random env v) idxs) s1 = Inr s'"
    by (auto split: sum.splits)
  let ?xs = "xs[nat (sint idx) := rand_stream env (fst (rng s)) (snd (rng s))]"
  from store_random_Inr [OF 1 Cons.prems(2)]
  have h: "host s1 = (host s)(v \<mapsto> ?xs)" and g: "rng s1 = (fst (rng s), Suc (snd (rng s)))"
    by simp_all
  from h have "host s1 v = Some ?xs" by simp
  from Cons.IH [OF 2 this]
  have "host s' = (host s1)(v \<mapsto> fst (fill env idxs (?xs, rng s1)))"
    and "rng s' = snd (fill env idxs (?xs, rng s1))"
    by blast+
  then show ?case
    by (simp only: h g fun_upd_upd fill.simps)
qed

lemma hipblas_init_Inr:
  assumes "hipblas_init env v m n ld s = Inr s'" "host s v = Some xs"
  shows "host s' = (host s)(v \<mapsto> fst (fill env (init_indices m n ld) (xs, rng s)))"
    and "rng s' = snd (fill env (init_indices m n ld) (xs, rng s))"
  using run_store_random [OF assms [unfolded hipblas_init_def]] by simp_all

lemma init_pre_Inr:
  assumes "run_steps (init_pre env argus b) s = Inr s'"
  shows "batch_ready env argus s' b"
    and "\<And>v. v \<notin> {Item hA_array b, Item hx_array b, Item hy_array b, Item hres_array b}
              \<Longrightarrow> host s' v = host s v"
proof -
  from assms obtain s1 s2 s3 s6 s7 where
    1: "host_vector (Item hA_array b) (sbmv_A_size argus) s = Inr s1"
    and 2: "host_vector (Item hx_array b) (X_size argus) s1 = Inr s2"
    and 3: "host_vector (Item hy_array b) (Y_size argus) s2 = Inr s3"
    and 6: "hipblas_init env (Item hA_array b) (M argus) (M argus) (lda argus)
              (srand 1 (s3\<lparr>host := (host s3)(Item hres_array b := host s3 (Item hy_array b))\<rparr>))
            = Inr s6"
    and 7: "hipblas_init env (Item hx_array b) 1 (M argus) (incx argus) s6 = Inr s7"
    and 8: "hipblas_init env (Item hy_array b) 1 (M argus) (incy argus) s7 = Inr s'"
    by (auto simp: init_pre_def assign_def proceed_def split: sum.splits)
  let ?s5 = "srand 1 (s3\<lparr>host := (host s3)(Item hres_array b := host s3 (Item hy_array b))\<rparr>)"
  let ?zA = "replicate (nat (sint (sbmv_A_size argus))) (0::'a)"
  let ?zx = "replicate (nat (sint (X_size argus))) (0::'a)"
  let ?zy = "replicate (nat (sint (Y_size argus))) (0::'a)"
  have h3: "host s3 = (host s)(Item hA_array b \<mapsto> ?zA, Item hx_array b \<mapsto> ?zx,
                               Item hy_array b \<mapsto> ?zy)"
    using host_vector_Inr(1) [OF 1] host_vector_Inr(1) [OF 2] host_vector_Inr(1) [OF 3]
    by simp
  have h5: "host ?s5 = (host s)(Item hA_array b \<mapsto> ?zA, Item hx_array b \<mapsto> ?zx,
                                Item hy_array b \<mapsto> ?zy, Item hres_array b \<mapsto> ?zy)"
    and g5: "rng ?s5 = (1, 0)"
    by (simp_all add: srand_def h3)
  have a5: "host ?s5 (Item hA_array b) = Some ?zA"
    using h5 by simp
  from hipblas_init_Inr [OF 6 a5]
  have h6: "host s6 = (host ?s5)(Item hA_array b \<mapsto> fst (filled_A env argus))"
    and g6: "rng s6 = snd (filled_A env argus)"
    by (simp_all only: g5 filled_A_def)
  have a6: "host s6 (Item hx_array b) = Some ?zx"
    using h5 by (simp add: h6)
  from hipblas_init_Inr [OF 7 a6]
  have h7: "host s7 = (host s6)(Item hx_array b \<mapsto> fst (filled_x env argus))"
    and g7: "rng s7 = snd (filled_x env argus)"
    by (simp_all only: g6 filled_x_def)
  have a7: "host s7 (Item hy_array b) = Some ?zy"
    using h5 by (simp add: h7 h6)
  from hipblas_init_Inr [OF 8 a7]
  have h8: "host s' = (host s7)(Item hy_array b \<mapsto> fst (filled_y env argus))"
    by (simp_all only: g7 filled_y_def)
  show "batch_ready env argus s' b"
    by (simp add: batch_ready_def h8 h7 h6)
  show "host s' v = host s v"
    if "v \<notin> {Item hA_array b, Item hx_array b, Item hy_array b, Item hres_array b}" for v
    using that h5 by (simp add: h8 h7 h6)
qed

lemma copy_batch_Inr: "copy_batch env argus b s = Inr s' \<Longrightarrow> host s' = host s"
  by (auto simp: copy_batch_def hipMemcpy_def emit_def Let_def split: if_splits)

lemma init_batch_Inr:
  assumes "init_batch env argus b s = Inr s'"
  shows "batch_ready env argus s' b"
    and "\<And>b'. b' \<noteq> b \<Longrightarrow> batch_ready env argus s b' \<Longrightarrow> batch_ready env argus s' b'"
proof -
  from assms obtain s1 where
    1: "run_steps (init_pre env argus b) s = Inr s1"
    and 2: "copy_batch env argus b s1 = Inr s'"
    by (auto simp: init_batch_split run_steps_append split: sum.splits)
  from init_pre_Inr(1) [OF 1] copy_batch_Inr [OF 2]
  show "batch_ready env argus s' b"
    by (simp add: batch_ready_def)
  show "batch_ready env argus s' b'" if "b' \<noteq> b" "batch_ready env argus s b'" for b'
    using that init_pre_Inr(2) [OF 1] copy_batch_Inr [OF 2]
    by (simp add: batch_ready_def)
qed

lemma init_batches_ready:
  "run_steps (map (init_batch env argus) [0..<k]) s = Inr s' \<Longrightarrow> b < k
   \<Longrightarrow> batch_ready env argus s' b"
proof (induction k arbitrary: s' b)
  case 0
  then show ?case by simp
next
  case (Suc k)
  from Suc.prems(1) obtain s1 where
    1: "run_steps (map (init_batch env argus) [0..<k]) s = Inr s1"
    and 2: "init_batch env argus k s1 = Inr s'"
    by (auto simp: run_steps_append split: sum.splits)
  show ?case
  proof (cases "b = k")
    case True
    with init_batch_Inr(1) [OF 2] show ?thesis by simp
  next
    case False
    with Suc.prems(2) have "b < k" by simp
    from init_batch_Inr(2) [OF 2 False Suc.IH [OF 1 this]] show ?thesis .
  qed
qed

text \<open>
  C8. When the initialisation loop of \<^verbatim>\<open>testing_sbmv_batched\<close> (lines 89 to 112) has
  run through, from whatever state, the host vectors of any two batch items \<open>b1\<close> and
  \<open>b2\<close> below the batch count are equal, element by element: \<^verbatim>\<open>hA_array\<close>,
  \<^verbatim>\<open>hx_array\<close> and \<^verbatim>\<open>hy_array\<close>. Each has the length it was allocated with. The
  generator is seeded anew in every iteration, so each item receives the same draws.
\<close>

theorem batch_items_identical:
  assumes "for_loop (batch_count argus) (init_batch env argus) s = Inr s'"
    and "b1 < nat (sint (batch_count argus))" "b2 < nat (sint (batch_count argus))"
  shows "host s' (Item hA_array b1) = host s' (Item hA_array b2)
         \<and> host s' (Item hx_array b1) = host s' (Item hx_array b2)
         \<and> host s' (Item hy_array b1) = host s' (Item hy_array b2)
         \<and> length (contents s' (Item hA_array b1)) = nat (sint (sbmv_A_size argus))
         \<and> length (contents s' (Item hx_array b1)) = nat (sint (X_size argus))
         \<and> length (contents s' (Item hy_array b1)) = nat (sint (Y_size argus))"
proof -
  from assms have "batch_ready env argus s' b1" "batch_ready env argus s' b2"
    by (auto simp: for_loop_def intro: init_batches_ready)
  then show ?thesis
    by (simp add: batch_ready_def contents_def filled_A_def filled_x_def filled_y_def length_fill)
qed

text \<open>C8 on two batch items with \<open>M = 2\<close>, \<open>lda = 2\<close> and increments 1.\<close>

theorem batch_items_identical_witness:
  "case for_loop (batch_count args0) (init_batch env0 args0) start of
     Inl r \<Rightarrow> False
   | Inr s' \<Rightarrow> host s' (Item hA_array 0) = host s' (Item hA_array 1)
              \<and> host s' (Item hx_array 0) = host s' (Item hx_array 1)
              \<and> host s' (Item hy_array 0) = host s' (Item hy_array 1)
              \<and> length (contents s' (Item hA_array 0)) = 4"
proof -
  have "case for_loop (batch_count args0) (init_batch env0 args0) start of
          Inl r \<Rightarrow> False | Inr s' \<Rightarrow> True"
    by code_simp
  then obtain s' where r: "for_loop (batch_count args0) (init_batch env0 args0) start = Inr s'"
    by (auto split: sum.splits)
  have b: "0 < nat (sint (batch_count args0))" "1 < nat (sint (batch_count args0))"
    by (simp_all add: args0_def)
  have "nat (sint (sbmv_A_size args0)) = 4"
    by (simp add: args0_def sbmv_A_size_def)
  with batch_items_identical [OF r b] r show ?thesis
    by simp
qed

section \<open>Sizes of the buffers\<close>

text \<open>
  C9. \<^verbatim>\<open>testing_her2k\<close> at \<open>N = 2\<close>, \<open>K = 2\<close>, \<open>lda = 2\<close>, \<open>ldb = 3\<close>, \<open>ldc = 2\<close>
  without transposition: the arguments pass the check, \<^verbatim>\<open>hB\<close> is allocated with
  \<open>lda * K1 = 4\<close> elements, and its initialisation, with stride \<open>ldb\<close>, stores at the
  indices 0, 3, 1 and 4, the last of them outside the vector.
\<close>

theorem her2k_hB_out_of_bounds:
  "B_size args_wide_ldb = 4
   \<and> HostAlloc (Buf hB) 4 \<in> set (trace (snd (testing_her2k env0 args_wide_ldb)))
   \<and> init_indices (N args_wide_ldb) (K1 args_wide_ldb) (ldb args_wide_ldb) = [0, 3, 1, 4]
   \<and> fst (testing_her2k env0 args_wide_ldb) = Faulted OutOfBounds"
  by code_simp

text \<open>
  C10. \<^verbatim>\<open>testing_sbmv_batched\<close> at \<open>M = 2\<close>, \<open>K = 1\<close>, \<open>lda = 2\<close>, \<open>incx = -1\<close>,
  \<open>incy = 1\<close> and two batches: the arguments pass the check and \<open>X_size = M * incx\<close> is
  \<open>-2\<close>. The device allocations are made with that size; when they are reported as
  successful the construction of \<^verbatim>\<open>hx_array[0]\<close> throws, otherwise the routine returns
  \<open>HIPBLAS_STATUS_ALLOC_FAILED\<close>.
\<close>

theorem sbmv_negative_size:
  "sint (X_size args_negative_incx) = - 2
   \<and> X_size args_negative_incx <s 0
   \<and> DeviceAlloc (Item bx_array 0) (- 2)
       \<in> set (trace (snd (testing_sbmv_batched env0 args_negative_incx)))
   \<and> fst (testing_sbmv_batched env0 args_negative_incx) = Faulted BadAlloc
   \<and> fst (testing_sbmv_batched env_no_device_memory args_negative_incx)
       = Returned HIPBLAS_STATUS_ALLOC_FAILED"
  by code_simp

end
